theory Spec2Isabelle
  imports Complex_Main "HOL-Library.AList"
begin

section \<open>The centrifuge client: connection and subscription lifecycle\<close>

text \<open>
  A shallow embedding of \<^verbatim>\<open>src/centrifuge/client.py\<close>. The client runs on one
  cooperative event loop, so a coroutine is a sequence of atomic segments separated by
  its suspension points. Each function below embeds one coroutine (or one segment of
  it, where the coroutine suspends on a future) as a function on the client state.

  Conventions of the embedding:
  \<^item> asyncio futures shared between the registry and a waiting coroutine live in a
    store (\<open>futs\<close> for reply futures, \<open>dones\<close> for the barriers of
    connect and subscribe); a future owned by one object (the connected and the
    subscribed signal) is a pair of an identity and a content;
  \<^item> timer handles, subscription objects and message queues live in stores as well;
  \<^item> a call of a user handler appends an event to \<open>events\<close>; handlers are assumed
    to return without raising and without calling back into the client;
  \<^item> \<^verbatim>\<open>asyncio.ensure_future(c)\<close> appends the coroutine to \<open>tasks\<close>: it is started
    later by the loop, not inline;
  \<^item> a raised exception is the \<open>Inl\<close> branch of the result.
\<close>

subsection \<open>Enumerations and errors\<close>

datatype ClientState = DISCONNECTED | CONNECTING | CONNECTED

datatype SubscriptionState = UNSUBSCRIBED | SUBSCRIBING | SUBSCRIBED

datatype ConnectingCode =
  CONNECT_CALLED | CONNECTING_TRANSPORT_CLOSED | NO_PING | UNSUBSCRIBE_ERROR

datatype DisconnectedCode =
  DISCONNECT_CALLED | DISCONNECTED_UNAUTHORIZED | MESSAGE_SIZE_LIMIT

datatype ErrorCode =
  TIMEOUT | ERROR_TRANSPORT_CLOSED | CONNECT_REPLY_ERROR | SUBSCRIBE_REPLY_ERROR
  | CLIENT_CONNECT_TOKEN | CLIENT_REFRESH_TOKEN
  | SUBSCRIPTION_SUBSCRIBE_TOKEN | SUBSCRIPTION_REFRESH_TOKEN

datatype SubscribingCode = SUBSCRIBE_CALLED | SUBSCRIBING_TRANSPORT_CLOSED

datatype UnsubscribedCode = UNSUBSCRIBE_CALLED | UNSUBSCRIBED_UNAUTHORIZED

datatype code_enum =
  CC ConnectingCode | DC DisconnectedCode | EC ErrorCode
  | SC SubscribingCode | UC UnsubscribedCode

text \<open>
  The modules \<^verbatim>\<open>centrifuge.codes\<close> and \<^verbatim>\<open>centrifuge.utils\<close> are not among the
  sources. What the client imports from them is a parameter of the model: the number
  and the message of an enumeration member, the token-expiry test on an error code and
  the backoff delay.
\<close>

record env =
  code_number :: "code_enum \<Rightarrow> int"
  code_message :: "code_enum \<Rightarrow> string"
  is_token_expired :: "int \<Rightarrow> bool"
  backoff :: "nat \<Rightarrow> real \<Rightarrow> real \<Rightarrow> real"

datatype disconnect_text =
  CommandCanceled int  \<comment> \<open>\<^verbatim>\<open>f"command {cmd_id} canceled due to disconnect"\<close>\<close>
  | ClientDisconnectedText int string  \<comment> \<open>\<^verbatim>\<open>f"client disconnected: {code} ({reason})"\<close>\<close>

datatype error =
  ClientDisconnectedError disconnect_text
  | OperationTimeoutError string
  | DuplicateSubscriptionError string
  | CentrifugeError string
  | ReplyError int string bool
  | SubscriptionUnsubscribedError string
  | InvalidStateError
  | KeyError string
  | AttributeError string
  | UnauthorizedError
  | OSError string

subsection \<open>Futures, timers, transport, wire messages\<close>

type_synonym fref = nat
type_synonym tref = nat
type_synonym sref = nat
type_synonym qref = nat

datatype 'a fut = Pending | Result 'a | Exception error

definition fut_done :: "'a fut \<Rightarrow> bool" where
  "fut_done f = (f \<noteq> Pending)"

datatype timer_callback =
  TimeoutCb int fref  \<comment> \<open>the closure \<open>cb\<close> of \<open>_register_future\<close>: command id and future\<close>
  | ReconnectCb
  | NoPingCb
  | RefreshCb
  | SubRefreshCb sref
  | ResubscribeCb sref

datatype timer_status = Armed | Cancelled | Fired

record timer =
  t_delay :: real
  t_callback :: timer_callback
  t_status :: timer_status

datatype ws_State = WS_CONNECTING | WS_OPEN | WS_CLOSING | WS_CLOSED

datatype command =
  ConnectCmd int "string option"
  | SubscribeCmd int string "string option"
  | UnsubscribeCmd int string
  | PongCmd

record transport =
  ws_state :: ws_State
  close_code :: "int option"
  close_reason :: string
  sent :: "command list list"

record error_payload =
  e_code :: int
  e_message :: string
  e_temporary :: "bool option"

record connect_result =
  c_client :: "string option"
  c_pong :: "bool option"
  c_ping :: "real option"
  c_expires :: "bool option"
  c_ttl :: "real option"

record subscribe_result =
  s_expires :: "bool option"
  s_ttl :: "real option"
  s_publications :: "string list"

record unsubscribe_payload =
  u_code :: "int option"
  u_reason :: "string option"

record disconnect_payload =
  d_code :: "int option"
  d_reason :: "string option"

record push =
  p_channel :: "string option"
  p_pub :: "string option"
  p_join :: "string option"
  p_leave :: "string option"
  p_unsubscribe :: "unsubscribe_payload option"
  p_disconnect :: "disconnect_payload option"

record reply =
  r_id :: "int option"
  r_error :: "error_payload option"
  r_connect :: "connect_result option"
  r_subscribe :: "subscribe_result option"
  r_push :: "push option"

record callback =
  cb_future :: fref
  cb_done :: "fref option"
  cb_timeout :: "tref option"

record subscription =
  channel :: string
  sub_state :: SubscriptionState
  subscribed_future :: "bool fut"
  subscribed_future_id :: nat
  sub_client :: bool
  sub_token :: string
  resubscribe_attempts :: nat
  sub_refresh_timer :: "tref option"
  resubscribe_timer :: "tref option"
  min_resubscribe_delay :: real
  max_resubscribe_delay :: real

datatype task =
  ScheduleReconnectTask
  | SubscribeTask string
  | ResubscribeTask sref
  | MoveUnsubscribedTask sref int string
  | MoveSubscribingTask sref int string
  | ListenTask
  | ProcessMessagesTask
  | ReconnectTask
  | NoPingTask
  | RefreshTask
  | SubRefreshTask sref
  | SubResubscribeTask sref

datatype event =
  OnConnecting int string
  | OnConnected connect_result
  | OnDisconnected int string
  | OnError int error
  | OnSubscribing sref int string
  | OnSubscribed sref subscribe_result
  | OnUnsubscribed sref int string
  | OnSubscriptionError sref int error
  | OnPublication sref string
  | OnJoin sref string
  | OnLeave sref string

subsection \<open>The client\<close>

record client =
  state :: ClientState
  conn :: "transport option"
  cmd_id :: int
  subs :: "(string \<times> sref) list"
  messages :: qref
  need_reconnect :: bool
  timeout :: real
  min_reconnect_delay :: real
  max_reconnect_delay :: real
  send_pong :: bool
  ping_interval :: real
  max_server_ping_delay :: real
  ping_timer :: "tref option"
  refresh_timer :: "tref option"
  connected_future :: "bool fut"
  connected_future_id :: nat
  token :: string
  futures :: "(int \<times> callback) list"
  reconnect_attempts :: nat
  reconnect_timer :: "tref option"
  client_id :: "string option"
  status :: "ClientState option"
  futs :: "fref \<Rightarrow> reply fut option"
  dones :: "fref \<Rightarrow> bool fut option"
  timers :: "tref \<Rightarrow> timer option"
  sub_objs :: "sref \<Rightarrow> subscription option"
  queues :: "qref \<Rightarrow> string option list"
  next_ref :: nat
  events :: "event list"
  tasks :: "task list"

text \<open>\<^verbatim>\<open>Client.__init__\<close>: the state of a new client.\<close>

definition init :: "string \<Rightarrow> real \<Rightarrow> real \<Rightarrow> real \<Rightarrow> real \<Rightarrow> client" where
  "init tok tmo max_ping_delay min_delay max_delay =
     \<lparr> state = DISCONNECTED, conn = None, cmd_id = 0, subs = [], messages = 0,
       need_reconnect = True, timeout = tmo, min_reconnect_delay = min_delay,
       max_reconnect_delay = max_delay, send_pong = True, ping_interval = 0,
       max_server_ping_delay = max_ping_delay, ping_timer = None, refresh_timer = None,
       connected_future = Pending, connected_future_id = 1, token = tok, futures = [],
       reconnect_attempts = 0, reconnect_timer = None, client_id = None, status = None,
       futs = (\<lambda>_. None), dones = (\<lambda>_. None), timers = (\<lambda>_. None),
       sub_objs = (\<lambda>_. None), queues = (\<lambda>_. []), next_ref = 2,
       events = [], tasks = [] \<rparr>"

definition emit :: "event \<Rightarrow> client \<Rightarrow> client" where
  "emit e s = s\<lparr>events := events s @ [e]\<rparr>"

definition spawn :: "task \<Rightarrow> client \<Rightarrow> client" where
  "spawn t s = s\<lparr>tasks := tasks s @ [t]\<rparr>"

text \<open>\<^verbatim>\<open>loop.call_later(delay, cb)\<close> and \<^verbatim>\<open>TimerHandle.cancel()\<close>.\<close>

definition call_later :: "real \<Rightarrow> timer_callback \<Rightarrow> client \<Rightarrow> tref \<times> client" where
  "call_later d cb s =
     (next_ref s,
      s\<lparr>timers := (timers s)(next_ref s \<mapsto> \<lparr>t_delay = d, t_callback = cb, t_status = Armed\<rparr>),
        next_ref := Suc (next_ref s)\<rparr>)"

definition cancel_timer :: "tref \<Rightarrow> client \<Rightarrow> client" where
  "cancel_timer h s =
     (case timers s h of
        None \<Rightarrow> s
      | Some t \<Rightarrow>
          (if t_status t = Armed
           then s\<lparr>timers := (timers s)(h \<mapsto> t\<lparr>t_status := Cancelled\<rparr>)\<rparr>
           else s))"

text \<open>\<^verbatim>\<open>Future.set_result\<close> and \<^verbatim>\<open>Future.set_exception\<close> raise
  \<^verbatim>\<open>InvalidStateError\<close> on a future that is already done.\<close>

definition set_result :: "fref \<Rightarrow> reply \<Rightarrow> client \<Rightarrow> error + client" where
  "set_result f r s =
     (case futs s f of
        Some Pending \<Rightarrow> Inr (s\<lparr>futs := (futs s)(f \<mapsto> Result r)\<rparr>)
      | _ \<Rightarrow> Inl InvalidStateError)"

definition set_exception :: "fref \<Rightarrow> error \<Rightarrow> client \<Rightarrow> error + client" where
  "set_exception f e s =
     (case futs s f of
        Some Pending \<Rightarrow> Inr (s\<lparr>futs := (futs s)(f \<mapsto> Exception e)\<rparr>)
      | _ \<Rightarrow> Inl InvalidStateError)"

definition set_done :: "fref \<Rightarrow> client \<Rightarrow> error + client" where
  "set_done d s =
     (case dones s d of
        Some Pending \<Rightarrow> Inr (s\<lparr>dones := (dones s)(d \<mapsto> Result True)\<rparr>)
      | _ \<Rightarrow> Inl InvalidStateError)"

subsection \<open>Command/reply registry\<close>

text \<open>\<^verbatim>\<open>Client._next_command_id\<close>.\<close>

definition next_command_id :: "client \<Rightarrow> int \<times> client" where
  "next_command_id s = (cmd_id s + 1, s\<lparr>cmd_id := cmd_id s + 1\<rparr>)"

text \<open>\<^verbatim>\<open>Client._register_future\<close>: a timer only for a truthy timeout.\<close>

definition arm_timeout :: "int \<Rightarrow> fref \<Rightarrow> real \<Rightarrow> client \<Rightarrow> tref option \<times> client" where
  "arm_timeout c f tmo s =
     (if tmo \<noteq> 0
      then (case call_later tmo (TimeoutCb c f) s of (h, s') \<Rightarrow> (Some h, s'))
      else (None, s))"

definition register_future :: "int \<Rightarrow> real \<Rightarrow> client \<Rightarrow> fref \<times> client" where
  "register_future c tmo s =
     (let f = next_ref s;
          s1 = s\<lparr>futs := (futs s)(f \<mapsto> Pending), next_ref := Suc f\<rparr>
      in case arm_timeout c f tmo s1 of
           (th, s2) \<Rightarrow>
             (f, s2\<lparr>futures :=
                     AList.update c \<lparr>cb_future = f, cb_done = None, cb_timeout = th\<rparr>
                       (futures s2)\<rparr>))"

text \<open>\<^verbatim>\<open>Client._register_future_with_done\<close>, entering the context manager: the
  future, the barrier \<open>done\<close>, the timer, the registry entry. Leaving the context
  manager is \<open>with_done_exit\<close>: the \<^verbatim>\<open>finally\<close> clause sets the barrier.\<close>

definition register_future_with_done ::
  "int \<Rightarrow> real \<Rightarrow> client \<Rightarrow> (fref \<times> fref) \<times> client" where
  "register_future_with_done c tmo s =
     (let f = next_ref s;
          d = Suc f;
          s1 = s\<lparr>futs := (futs s)(f \<mapsto> Pending), dones := (dones s)(d \<mapsto> Pending),
                next_ref := Suc d\<rparr>
      in case arm_timeout c f tmo s1 of
           (th, s2) \<Rightarrow>
             ((f, d), s2\<lparr>futures :=
                     AList.update c \<lparr>cb_future = f, cb_done = Some d, cb_timeout = th\<rparr>
                       (futures s2)\<rparr>))"

definition with_done_exit :: "fref \<Rightarrow> client \<Rightarrow> error + client" where
  "with_done_exit d s = set_done d s"

text \<open>\<^verbatim>\<open>Client._future_error\<close>.\<close>

definition future_error :: "int \<Rightarrow> error \<Rightarrow> client \<Rightarrow> error + client" where
  "future_error c exc s =
     (case map_of (futures s) c of
        None \<Rightarrow> Inr s
      | Some cb \<Rightarrow>
          (case set_exception (cb_future cb) exc s of
             Inl e \<Rightarrow> Inl e
           | Inr s1 \<Rightarrow>
               (case (case cb_done cb of None \<Rightarrow> Inr s1 | Some d \<Rightarrow> set_done d s1) of
                  Inl e \<Rightarrow> Inl e
                | Inr s2 \<Rightarrow> Inr (s2\<lparr>futures := AList.delete c (futures s2)\<rparr>))))"

text \<open>\<^verbatim>\<open>Client._future_success\<close> up to its suspension point \<^verbatim>\<open>await cb.done\<close>: the
  result carries the barrier the coroutine awaits next, if the record has one.\<close>

definition future_success :: "int \<Rightarrow> reply \<Rightarrow> client \<Rightarrow> error + (fref option \<times> client)" where
  "future_success c r s =
     (case map_of (futures s) c of
        None \<Rightarrow> Inr (None, s)
      | Some cb \<Rightarrow>
          (case set_result (cb_future cb) r s of
             Inl e \<Rightarrow> Inl e
           | Inr s1 \<Rightarrow>
               (let s2 = s1\<lparr>futures := AList.delete c (futures s1)\<rparr>;
                    s3 = (case cb_timeout cb of None \<Rightarrow> s2 | Some h \<Rightarrow> cancel_timer h s2)
                in Inr (cb_done cb, s3))))"

text \<open>The timer callback \<open>cb\<close> of \<^verbatim>\<open>_register_future\<close>.\<close>

definition timeout_cb :: "int \<Rightarrow> fref \<Rightarrow> client \<Rightarrow> error + client" where
  "timeout_cb c f s =
     (if futs s f = Some Pending then future_error c (OperationTimeoutError []) s
      else Inr s)"

text \<open>\<^verbatim>\<open>Client._clear_outgoing_futures\<close>: the ids are collected first, then each
  is failed in the registry's order.\<close>

fun future_error_all :: "int list \<Rightarrow> client \<Rightarrow> error + client" where
  "future_error_all [] s = Inr s"
| "future_error_all (c # cs) s =
     (case future_error c (ClientDisconnectedError (CommandCanceled c)) s of
        Inl e \<Rightarrow> Inl e
      | Inr s' \<Rightarrow> future_error_all cs s')"

definition clear_outgoing_futures :: "client \<Rightarrow> error + client" where
  "clear_outgoing_futures s = future_error_all (map fst (futures s)) s"

subsection \<open>Subscription objects\<close>

text \<open>A subscription reference always denotes an object; an update through a
  reference that denotes none leaves the state as it is.\<close>

definition upd_sub :: "sref \<Rightarrow> (subscription \<Rightarrow> subscription) \<Rightarrow> client \<Rightarrow> client" where
  "upd_sub r f s =
     (case sub_objs s r of
        None \<Rightarrow> s
      | Some sb \<Rightarrow> s\<lparr>sub_objs := (sub_objs s)(r \<mapsto> f sb)\<rparr>)"

text \<open>\<^verbatim>\<open>if self._subscribed_future.done(): self._subscribed_future = asyncio.Future()\<close>\<close>

definition refresh_subscribed_future :: "sref \<Rightarrow> client \<Rightarrow> client" where
  "refresh_subscribed_future r s =
     (case sub_objs s r of
        None \<Rightarrow> s
      | Some sb \<Rightarrow>
          (if fut_done (subscribed_future sb)
           then (upd_sub r (\<lambda>x. x\<lparr>subscribed_future := Pending,
                                   subscribed_future_id := next_ref s\<rparr>) s)
                  \<lparr>next_ref := Suc (next_ref s)\<rparr>
           else s))"

text \<open>\<^verbatim>\<open>Subscription._clear_subscribed_state\<close> and
  \<^verbatim>\<open>Subscription._clear_subscribing_state\<close>.\<close>

definition clear_subscribed_state :: "sref \<Rightarrow> client \<Rightarrow> client" where
  "clear_subscribed_state r s =
     (case sub_objs s r of
        None \<Rightarrow> s
      | Some sb \<Rightarrow>
          (case sub_refresh_timer sb of
             None \<Rightarrow> s
           | Some h \<Rightarrow> upd_sub r (\<lambda>x. x\<lparr>sub_refresh_timer := None\<rparr>) (cancel_timer h s)))"

definition clear_subscribing_state :: "sref \<Rightarrow> client \<Rightarrow> client" where
  "clear_subscribing_state r s =
     (let s1 = upd_sub r (\<lambda>x. x\<lparr>resubscribe_attempts := 0\<rparr>) s
      in case sub_objs s1 r of
           None \<Rightarrow> s1
         | Some sb \<Rightarrow>
             (case resubscribe_timer sb of
                None \<Rightarrow> s1
              | Some h \<Rightarrow> upd_sub r (\<lambda>x. x\<lparr>resubscribe_timer := None\<rparr>) (cancel_timer h s1)))"

text \<open>\<^verbatim>\<open>Client.resubscribe\<close>.\<close>

definition resubscribe :: "sref \<Rightarrow> client \<Rightarrow> client" where
  "resubscribe r s =
     (case sub_objs s r of
        None \<Rightarrow> s
      | Some sb \<Rightarrow>
          spawn (SubscribeTask (channel sb))
            (s\<lparr>subs := AList.update (channel sb) r (subs s)\<rparr>))"

text \<open>\<^verbatim>\<open>Subscription.move_subscribing\<close>. The last statement reads
  \<^verbatim>\<open>self._client.resubscribe\<close>, which raises on a removed subscription.\<close>

definition move_subscribing :: "sref \<Rightarrow> int \<Rightarrow> string \<Rightarrow> bool \<Rightarrow> client \<Rightarrow> error + client" where
  "move_subscribing r code reason skip_schedule_resubscribe s =
     (case sub_objs s r of
        None \<Rightarrow> Inr s
      | Some sb \<Rightarrow>
          (if sub_state sb = SUBSCRIBING then Inr s
           else
             (let s1 = (if sub_state sb = SUBSCRIBED then clear_subscribed_state r s else s);
                  s2 = upd_sub r (\<lambda>x. x\<lparr>sub_state := SUBSCRIBING\<rparr>) s1;
                  s3 = refresh_subscribed_future r s2;
                  s4 = emit (OnSubscribing r code reason) s3
              in if skip_schedule_resubscribe then Inr s4
                 else if sub_client sb then Inr (spawn (ResubscribeTask r) s4)
                 else Inl (AttributeError ''resubscribe''))))"

text \<open>\<^verbatim>\<open>Subscription.subscribe\<close>.\<close>

definition subscribe :: "env \<Rightarrow> sref \<Rightarrow> client \<Rightarrow> error + client" where
  "subscribe env r s =
     (case sub_objs s r of
        None \<Rightarrow> Inr s
      | Some sb \<Rightarrow>
          (if sub_state sb = SUBSCRIBING then Inr s
           else
             (let s1 = upd_sub r (\<lambda>x. x\<lparr>sub_state := SUBSCRIBING\<rparr>) s;
                  s2 = emit (OnSubscribing r (code_number env (SC SUBSCRIBE_CALLED))
                                             (code_message env (SC SUBSCRIBE_CALLED))) s1
              in if sub_client sb then Inr (resubscribe r s2)
                 else Inl (AttributeError ''resubscribe''))))"

text \<open>\<^verbatim>\<open>Client.get_subscription\<close>, \<^verbatim>\<open>Client.new_subscription\<close> and
  \<^verbatim>\<open>Client.remove_subscription\<close>. A subscription object is always truthy, so
  \<^verbatim>\<open>if not sub\<close> tests for \<^verbatim>\<open>None\<close>.\<close>

definition get_subscription :: "string \<Rightarrow> client \<Rightarrow> sref option" where
  "get_subscription ch s = map_of (subs s) ch"

definition new_subscription ::
  "string \<Rightarrow> string \<Rightarrow> real \<Rightarrow> real \<Rightarrow> client \<Rightarrow> error + (sref \<times> client)" where
  "new_subscription ch tok min_delay max_delay s =
     (case get_subscription ch s of
        Some _ \<Rightarrow>
          Inl (DuplicateSubscriptionError
                 (''subscription to channel '' @ [CHR 0x22] @ ch @ [CHR 0x22]
                    @ '' is already registered''))
      | None \<Rightarrow>
          (let r = next_ref s;
               sb = \<lparr> channel = ch, sub_state = UNSUBSCRIBED, subscribed_future = Pending,
                      subscribed_future_id = Suc r, sub_client = True, sub_token = tok,
                      resubscribe_attempts = 0, sub_refresh_timer = None,
                      resubscribe_timer = None, min_resubscribe_delay = min_delay,
                      max_resubscribe_delay = max_delay \<rparr>
           in Inr (r, s\<lparr>sub_objs := (sub_objs s)(r \<mapsto> sb),
                        next_ref := Suc (Suc r),
                        subs := AList.update ch r (subs s)\<rparr>)))"

definition remove_subscription :: "sref option \<Rightarrow> client \<Rightarrow> error + client" where
  "remove_subscription ro s =
     (case ro of
        None \<Rightarrow> Inr s
      | Some r \<Rightarrow>
          (case sub_objs s r of
             None \<Rightarrow> Inr s
           | Some sb \<Rightarrow>
               (if sub_state sb \<noteq> UNSUBSCRIBED
                then Inl (CentrifugeError
                            ''can not remove subscription in non-unsubscribed state'')
                else
                  (let s1 = upd_sub r (\<lambda>x. x\<lparr>sub_client := False\<rparr>) s
                   in case map_of (subs s1) (channel sb) of
                        None \<Rightarrow> Inl (KeyError (channel sb))
                      | Some _ \<Rightarrow>
                          Inr (s1\<lparr>subs := AList.delete (channel sb) (subs s1)\<rparr>)))))"

subsection \<open>Transport and reconnect scheduling\<close>

text \<open>
  The websocket library is outside the repository. Of a connection the client reads
  its state, its close code and its close reason; \<^verbatim>\<open>close()\<close> leaves it closed and
  \<^verbatim>\<open>send\<close> raises \<^verbatim>\<open>ConnectionClosed\<close> on a connection that is not open.
\<close>

definition ws_open :: "transport \<Rightarrow> bool" where
  "ws_open c = (ws_state c = WS_OPEN)"

text \<open>\<^verbatim>\<open>Client._close_transport_conn\<close>.\<close>

definition close_transport_conn :: "client \<Rightarrow> client" where
  "close_transport_conn s =
     (case conn s of
        None \<Rightarrow> s
      | Some c \<Rightarrow> s\<lparr>conn := Some (c\<lparr>ws_state := WS_CLOSED\<rparr>)\<rparr>)"

text \<open>\<^verbatim>\<open>Client._clear_connecting_state\<close>.\<close>

definition clear_connecting_state :: "client \<Rightarrow> client" where
  "clear_connecting_state s =
     (let s1 = s\<lparr>reconnect_attempts := 0\<rparr>
      in case reconnect_timer s1 of
           None \<Rightarrow> s1
         | Some h \<Rightarrow> (cancel_timer h s1)\<lparr>reconnect_timer := None\<rparr>)"

text \<open>\<^verbatim>\<open>Client._schedule_reconnect\<close>. The assignment goes to the attribute
  \<^verbatim>\<open>status\<close>, as in the source.\<close>

definition schedule_reconnect :: "env \<Rightarrow> client \<Rightarrow> client" where
  "schedule_reconnect env s =
     (if state s = CONNECTED then s
      else if (case conn s of None \<Rightarrow> False | Some c \<Rightarrow> ws_open c) then s
      else if \<not> need_reconnect s then s
      else
        (let s1 = s\<lparr>status := Some CONNECTING\<rparr>;
             delay = backoff env (reconnect_attempts s1) (min_reconnect_delay s1)
                       (max_reconnect_delay s1);
             s2 = s1\<lparr>reconnect_attempts := Suc (reconnect_attempts s1)\<rparr>
         in case call_later delay ReconnectCb s2 of
              (h, s3) \<Rightarrow> s3\<lparr>reconnect_timer := Some h\<rparr>))"

text \<open>\<^verbatim>\<open>Client._restart_ping_wait\<close>.\<close>

definition restart_ping_wait :: "client \<Rightarrow> client" where
  "restart_ping_wait s =
     (let s1 = (case ping_timer s of None \<Rightarrow> s | Some h \<Rightarrow> cancel_timer h s)
      in case call_later (ping_interval s1 + max_server_ping_delay s1) NoPingCb s1 of
           (h, s2) \<Rightarrow> s2\<lparr>ping_timer := Some h\<rparr>)"

subsection \<open>Internal disconnect\<close>

text \<open>
  \<^verbatim>\<open>Client._disconnect\<close> in four parts. \<open>disconnect_head\<close> runs to the test of the
  state. \<open>disconnect_signal\<close> is the part that touches the connected future and the
  state: the only \<^verbatim>\<open>await\<close> in it is on a future that is already done, which does
  not suspend, so the part is atomic. \<open>disconnect_tail\<close> closes the transport, moves
  the subscribed subscriptions to subscribing and reports.
\<close>

definition poison_messages :: "client \<Rightarrow> client" where
  "poison_messages s =
     (let q = messages s
      in s\<lparr>queues := (queues s)(q := queues s q @ [None]),
           messages := next_ref s, next_ref := Suc (next_ref s)\<rparr>)"

definition disconnect_head :: "bool \<Rightarrow> client \<Rightarrow> client" where
  "disconnect_head reconnect s =
     (let s1 = (case ping_timer s of
                  None \<Rightarrow> s
                | Some h \<Rightarrow> (cancel_timer h s)\<lparr>ping_timer := None\<rparr>);
          s2 = (case refresh_timer s1 of
                  None \<Rightarrow> s1
                | Some h \<Rightarrow> (cancel_timer h s1)\<lparr>refresh_timer := None\<rparr>);
          s3 = clear_connecting_state s2;
          s4 = poison_messages s3
      in if reconnect then s4 else s4\<lparr>need_reconnect := False\<rparr>)"

definition refresh_connected_future :: "client \<Rightarrow> client" where
  "refresh_connected_future s =
     (if fut_done (connected_future s)
      then s\<lparr>connected_future := Pending, connected_future_id := next_ref s,
             next_ref := Suc (next_ref s)\<rparr>
      else s)"

definition disconnect_signal :: "int \<Rightarrow> string \<Rightarrow> bool \<Rightarrow> client \<Rightarrow> client" where
  "disconnect_signal code reason reconnect s =
     (let s1 = refresh_connected_future s
      in if reconnect then s1\<lparr>state := CONNECTING\<rparr>
         else s1\<lparr>connected_future :=
                    Exception (ClientDisconnectedError (ClientDisconnectedText code reason)),
                  state := DISCONNECTED\<rparr>)"

fun move_subscribing_all :: "env \<Rightarrow> sref list \<Rightarrow> client \<Rightarrow> error + client" where
  "move_subscribing_all env [] s = Inr s"
| "move_subscribing_all env (r # rs) s =
     (if (case sub_objs s r of None \<Rightarrow> False | Some sb \<Rightarrow> sub_state sb = SUBSCRIBED)
      then (case move_subscribing r (code_number env (SC SUBSCRIBING_TRANSPORT_CLOSED))
                   (code_message env (SC SUBSCRIBING_TRANSPORT_CLOSED)) True s of
              Inl e \<Rightarrow> Inl e
            | Inr s' \<Rightarrow> move_subscribing_all env rs s')
      else move_subscribing_all env rs s)"

definition disconnect_tail :: "env \<Rightarrow> int \<Rightarrow> string \<Rightarrow> bool \<Rightarrow> client \<Rightarrow> error + client" where
  "disconnect_tail env code reason reconnect s =
     (let s1 = (if (case conn s of None \<Rightarrow> False | Some c \<Rightarrow> ws_state c \<noteq> WS_CLOSED)
                then close_transport_conn s else s)
      in case move_subscribing_all env (map snd (subs s1)) s1 of
           Inl e \<Rightarrow> Inl e
         | Inr s2 \<Rightarrow>
             (let s3 = emit (OnDisconnected code reason) s2
              in Inr (if reconnect then spawn ScheduleReconnectTask s3 else s3)))"

definition disconnect :: "env \<Rightarrow> int \<Rightarrow> string \<Rightarrow> bool \<Rightarrow> client \<Rightarrow> error + client" where
  "disconnect env code reason reconnect s =
     (let s1 = disconnect_head reconnect s
      in if state s1 = DISCONNECTED then Inr s1
         else (case clear_outgoing_futures s1 of
                 Inl e \<Rightarrow> Inl e
               | Inr s2 \<Rightarrow>
                   disconnect_tail env code reason reconnect
                     (disconnect_signal code reason reconnect s2)))"

text \<open>\<^verbatim>\<open>Client.disconnect\<close>, the user's call.\<close>

definition user_disconnect :: "env \<Rightarrow> client \<Rightarrow> error + client" where
  "user_disconnect env s =
     (if state s = DISCONNECTED then Inr s
      else disconnect env (code_number env (DC DISCONNECT_CALLED))
             (code_message env (DC DISCONNECT_CALLED)) False s)"

text \<open>\<^verbatim>\<open>Client._process_disconnect\<close>: the disconnect push of the server.\<close>

definition process_disconnect :: "env \<Rightarrow> disconnect_payload \<Rightarrow> client \<Rightarrow> error + client" where
  "process_disconnect env d s =
     (case d_code d of
        None \<Rightarrow> Inl (KeyError ''code'')
      | Some code \<Rightarrow>
          (let reconnect = ((3500 \<le> code \<and> code < 4000) \<or> (4500 \<le> code \<and> code < 5000))
           in case d_reason d of
                None \<Rightarrow> Inl (KeyError ''reason'')
              | Some reason \<Rightarrow> disconnect env code reason reconnect s))"

text \<open>\<^verbatim>\<open>Client._listen\<close> after its receive loop: the arguments of the internal
  disconnect, computed from the close code and reason of the transport.\<close>

definition listen_close :: "env \<Rightarrow> int option \<Rightarrow> string \<Rightarrow> int \<times> string \<times> bool" where
  "listen_close env close_code0 close_reason0 =
     (let falsy = (close_code0 = None \<or> close_code0 = Some 0);
          ws_code = (if falsy then 0 else the close_code0);
          ws_reason = (if falsy then [] else close_reason0);
          default_code = CC CONNECTING_TRANSPORT_CLOSED
      in if ws_code < 3000
         then (if ws_code = 1009
               then (code_number env (DC MESSAGE_SIZE_LIMIT),
                     code_message env (DC MESSAGE_SIZE_LIMIT), True)
               else (code_number env default_code, code_message env default_code, True))
         else (ws_code, ws_reason,
               \<not> ((3500 \<le> ws_code \<and> ws_code < 4000) \<or> (4500 \<le> ws_code \<and> ws_code < 5000))))"

definition listen_exit :: "env \<Rightarrow> client \<Rightarrow> error + client" where
  "listen_exit env s =
     (case conn s of
        None \<Rightarrow> Inl (AttributeError ''close_code'')
      | Some c \<Rightarrow>
          (case listen_close env (close_code c) (close_reason c) of
             (code, reason, reconnect) \<Rightarrow> disconnect env code reason reconnect s))"

subsection \<open>Sending, connecting\<close>

text \<open>\<^verbatim>\<open>Client._send_commands\<close>.\<close>

definition send_commands :: "env \<Rightarrow> command list \<Rightarrow> client \<Rightarrow> error + client" where
  "send_commands env cmds s =
     (case conn s of
        None \<Rightarrow> Inl (CentrifugeError ''connection is not initialized'')
      | Some c \<Rightarrow>
          (if ws_open c then Inr (s\<lparr>conn := Some (c\<lparr>sent := sent c @ [cmds]\<rparr>)\<rparr>)
           else disconnect env (code_number env (CC CONNECTING_TRANSPORT_CLOSED))
                  (code_message env (CC CONNECTING_TRANSPORT_CLOSED)) True s))"

text \<open>\<^verbatim>\<open>Client.connect\<close> up to its call of \<^verbatim>\<open>_create_connection\<close>.\<close>

definition connect_call :: "env \<Rightarrow> client \<Rightarrow> client" where
  "connect_call env s =
     (if state s = CONNECTING \<or> state s = CONNECTED then s
      else emit (OnConnecting (code_number env (CC CONNECT_CALLED))
                              (code_message env (CC CONNECT_CALLED)))
             (refresh_connected_future (s\<lparr>state := CONNECTING\<rparr>)))"

text \<open>
  \<^verbatim>\<open>Client._create_connection\<close>, in the segments between its suspension points:
  \<open>create_connection_open\<close> takes what \<^verbatim>\<open>websockets.connect\<close> returned or raised,
  \<open>create_connection_token\<close> what the token provider returned or raised (\<open>None\<close>
  when no provider is configured), \<open>create_connection_send\<close> registers and sends
  the connect command, \<open>create_connection_result\<close> is the body after
  \<^verbatim>\<open>reply = await future\<close>, and \<open>create_connection_resume\<close> adds the exit of the
  context manager.
\<close>

definition create_connection_open :: "env \<Rightarrow> error + transport \<Rightarrow> client \<Rightarrow> client" where
  "create_connection_open env res s =
     (if state s \<noteq> CONNECTING then s
      else (case res of
              Inl e \<Rightarrow>
                spawn ScheduleReconnectTask
                  (emit (OnError (code_number env (EC ERROR_TRANSPORT_CLOSED)) e) s)
            | Inr t \<Rightarrow> s\<lparr>conn := Some t\<rparr>))"

definition create_connection_token ::
  "env \<Rightarrow> (error + string) option \<Rightarrow> client \<Rightarrow> error + (string option option \<times> client)" where
  "create_connection_token env provided s =
     (if token s \<noteq> [] then Inr (Some (Some (token s)), s)
      else (case provided of
              None \<Rightarrow> Inr (Some None, s)
            | Some (Inr tok) \<Rightarrow> Inr (Some (Some tok), s\<lparr>token := tok\<rparr>)
            | Some (Inl e) \<Rightarrow>
                (if e = UnauthorizedError
                 then (case disconnect env (code_number env (DC DISCONNECTED_UNAUTHORIZED))
                              (code_message env (DC DISCONNECTED_UNAUTHORIZED)) False s of
                         Inl e' \<Rightarrow> Inl e'
                       | Inr s' \<Rightarrow> Inr (None, s'))
                 else Inr (None,
                        spawn ScheduleReconnectTask
                          (emit (OnError (code_number env (EC CLIENT_CONNECT_TOKEN)) e)
                             (close_transport_conn s))))))"

definition create_connection_send ::
  "env \<Rightarrow> string option \<Rightarrow> client \<Rightarrow> error + ((fref \<times> fref) option \<times> client)" where
  "create_connection_send env tok s =
     (if state s \<noteq> CONNECTING then Inr (None, s)
      else (case next_command_id (spawn ProcessMessagesTask (spawn ListenTask s)) of
              (c, s1) \<Rightarrow>
                (case register_future_with_done c (timeout s1) s1 of
                   (fd, s2) \<Rightarrow>
                     (case send_commands env [ConnectCmd c tok] s2 of
                        Inl e \<Rightarrow> Inl e
                      | Inr s3 \<Rightarrow> Inr (Some fd, s3)))))"

fun subscribe_tasks :: "(string \<times> sref) list \<Rightarrow> client \<Rightarrow> client" where
  "subscribe_tasks [] s = s"
| "subscribe_tasks ((ch, r) # xs) s =
     subscribe_tasks xs
       (if (case sub_objs s r of None \<Rightarrow> False | Some sb \<Rightarrow> sub_state sb = SUBSCRIBING)
        then spawn (SubscribeTask ch) s else s)"

definition connect_reply_error :: "env \<Rightarrow> error_payload \<Rightarrow> client \<Rightarrow> error + client" where
  "connect_reply_error env err s =
     (let code = e_code err;
          message = e_message err;
          expired = is_token_expired env code;
          temporary = (if expired then True
                       else (case e_temporary err of None \<Rightarrow> False | Some b \<Rightarrow> b));
          s1 = (if expired then s\<lparr>token := []\<rparr> else s)
      in if temporary
         then Inr (schedule_reconnect env
                     (emit (OnError (code_number env (EC CONNECT_REPLY_ERROR))
                                    (ReplyError code message temporary))
                        (close_transport_conn s1)))
         else disconnect env code message False s1)"

definition connect_reply_success :: "connect_result \<Rightarrow> client \<Rightarrow> error + client" where
  "connect_reply_success c s =
     (case c_client c of
        None \<Rightarrow> Inl (KeyError ''client'')
      | Some cid \<Rightarrow>
          (let s1 = s\<lparr>client_id := Some cid, state := CONNECTED,
                      send_pong := (case c_pong c of None \<Rightarrow> False | Some b \<Rightarrow> b),
                      ping_interval := (case c_ping c of None \<Rightarrow> 0 | Some x \<Rightarrow> x)\<rparr>;
               s2 = (if ping_interval s1 > 0 then restart_ping_wait s1 else s1)
           in case (if (case c_expires c of None \<Rightarrow> False | Some b \<Rightarrow> b)
                    then (case c_ttl c of
                            None \<Rightarrow> Inl (KeyError ''ttl'')
                          | Some ttl \<Rightarrow>
                              (case call_later ttl RefreshCb s2 of
                                 (h, s') \<Rightarrow> Inr (s'\<lparr>refresh_timer := Some h\<rparr>)))
                    else Inr s2) of
                Inl e \<Rightarrow> Inl e
              | Inr s3 \<Rightarrow>
                  (if fut_done (connected_future s3) then Inl InvalidStateError
                   else
                     (let s4 = s3\<lparr>connected_future := Result True\<rparr>;
                          s5 = emit (OnConnected c) s4;
                          s6 = clear_connecting_state s5
                      in Inr (subscribe_tasks (subs s6) s6)))))"

definition connect_reply :: "env \<Rightarrow> reply \<Rightarrow> client \<Rightarrow> error + client" where
  "connect_reply env rp s =
     (if state s \<noteq> CONNECTING then Inr s
      else (case r_error rp of
              Some err \<Rightarrow> connect_reply_error env err s
            | None \<Rightarrow>
                (case r_connect rp of
                   None \<Rightarrow> Inl (KeyError ''connect'')
                 | Some c \<Rightarrow> connect_reply_success c s)))"

definition create_connection_result :: "env \<Rightarrow> reply fut \<Rightarrow> client \<Rightarrow> error + client" where
  "create_connection_result env outcome s =
     (case outcome of
        Pending \<Rightarrow> Inr s
      | Result rp \<Rightarrow> connect_reply env rp s
      | Exception e \<Rightarrow>
          (case e of
             OperationTimeoutError m \<Rightarrow>
               Inr (schedule_reconnect env
                      (emit (OnError (code_number env (EC TIMEOUT)) e)
                         (close_transport_conn s)))
           | _ \<Rightarrow>
               (if state s \<noteq> CONNECTING then Inr s
                else Inr (schedule_reconnect env
                            (emit (OnError (code_number env (EC ERROR_TRANSPORT_CLOSED)) e)
                               (close_transport_conn s))))))"

definition create_connection_resume :: "env \<Rightarrow> fref \<Rightarrow> fref \<Rightarrow> client \<Rightarrow> error + client" where
  "create_connection_resume env f d s =
     (case futs s f of
        None \<Rightarrow> Inr s
      | Some Pending \<Rightarrow> Inr s
      | Some outcome \<Rightarrow>
          (case create_connection_result env outcome s of
             Inl e \<Rightarrow> Inl e
           | Inr s' \<Rightarrow> with_done_exit d s'))"

subsection \<open>Unsubscribing and subscribing\<close>

text \<open>\<^verbatim>\<open>Client._unsubscribe\<close>: up to \<^verbatim>\<open>await future\<close>, and from there on.\<close>

definition client_unsubscribe_send ::
  "env \<Rightarrow> string \<Rightarrow> client \<Rightarrow> error + (fref option \<times> client)" where
  "client_unsubscribe_send env ch s =
     (case map_of (subs s) ch of
        None \<Rightarrow> Inr (None, s)
      | Some r \<Rightarrow>
          (case sub_objs s r of
             None \<Rightarrow> Inr (None, s)
           | Some sb \<Rightarrow>
               (case next_command_id s of
                  (c, s1) \<Rightarrow>
                    (case register_future c (timeout s1) s1 of
                       (f, s2) \<Rightarrow>
                         (case send_commands env [UnsubscribeCmd c (channel sb)] s2 of
                            Inl e \<Rightarrow> Inl e
                          | Inr s3 \<Rightarrow> Inr (Some f, s3))))))"

definition client_unsubscribe_result :: "env \<Rightarrow> reply fut \<Rightarrow> client \<Rightarrow> error + client" where
  "client_unsubscribe_result env outcome s =
     (case outcome of
        Pending \<Rightarrow> Inr s
      | Result rp \<Rightarrow> Inr s
      | Exception e \<Rightarrow>
          (case e of
             OperationTimeoutError m \<Rightarrow>
               disconnect env (code_number env (CC UNSUBSCRIBE_ERROR))
                 (code_message env (CC UNSUBSCRIBE_ERROR)) True s
           | _ \<Rightarrow> Inl e))"

definition client_unsubscribe_resume :: "env \<Rightarrow> fref \<Rightarrow> client \<Rightarrow> error + client" where
  "client_unsubscribe_resume env f s =
     (case futs s f of
        None \<Rightarrow> Inr s
      | Some outcome \<Rightarrow> client_unsubscribe_result env outcome s)"

text \<open>\<^verbatim>\<open>Subscription._move_unsubscribed\<close> and \<^verbatim>\<open>Subscription.unsubscribe\<close>, up to
  the suspension point of \<^verbatim>\<open>Client._unsubscribe\<close>: the result carries the future the
  coroutine awaits, if a command was sent.\<close>

definition move_unsubscribed ::
  "env \<Rightarrow> sref \<Rightarrow> int \<Rightarrow> string \<Rightarrow> bool \<Rightarrow> client \<Rightarrow> error + (fref option \<times> client)" where
  "move_unsubscribed env r code reason send_unsubscribe_command s =
     (case sub_objs s r of
        None \<Rightarrow> Inr (None, s)
      | Some sb \<Rightarrow>
          (if sub_state sb = UNSUBSCRIBED then Inr (None, s)
           else
             (let s1 = (if sub_state sb = SUBSCRIBED then clear_subscribed_state r s
                        else if sub_state sb = SUBSCRIBING then clear_subscribing_state r s
                        else s);
                  s2 = upd_sub r (\<lambda>x. x\<lparr>sub_state := UNSUBSCRIBED\<rparr>) s1;
                  s3 = refresh_subscribed_future r s2;
                  s4 = upd_sub r (\<lambda>x. x\<lparr>subscribed_future :=
                         Exception (SubscriptionUnsubscribedError
                                      ''subscription unsubscribed'')\<rparr>) s3;
                  s5 = emit (OnUnsubscribed r code reason) s4
              in if send_unsubscribe_command
                 then (if sub_client sb then client_unsubscribe_send env (channel sb) s5
                       else Inl (AttributeError ''_unsubscribe''))
                 else Inr (None, s5))))"

definition unsubscribe :: "env \<Rightarrow> sref \<Rightarrow> client \<Rightarrow> error + (fref option \<times> client)" where
  "unsubscribe env r s =
     move_unsubscribed env r (code_number env (UC UNSUBSCRIBE_CALLED))
       (code_message env (UC UNSUBSCRIBE_CALLED)) True s"

text \<open>\<^verbatim>\<open>Subscription._schedule_resubscribe\<close> and
  \<^verbatim>\<open>Subscription._move_subscribed\<close>.\<close>

definition schedule_resubscribe :: "env \<Rightarrow> sref \<Rightarrow> client \<Rightarrow> client" where
  "schedule_resubscribe env r s =
     (case sub_objs s r of
        None \<Rightarrow> s
      | Some sb \<Rightarrow>
          (if sub_state sb \<noteq> SUBSCRIBING then s
           else
             (let delay = backoff env (resubscribe_attempts sb) (min_resubscribe_delay sb)
                            (max_resubscribe_delay sb);
                  s1 = upd_sub r (\<lambda>x. x\<lparr>resubscribe_attempts :=
                                          Suc (resubscribe_attempts x)\<rparr>) s
              in case call_later delay (ResubscribeCb r) s1 of
                   (h, s2) \<Rightarrow> upd_sub r (\<lambda>x. x\<lparr>resubscribe_timer := Some h\<rparr>) s2)))"

fun emit_publications :: "sref \<Rightarrow> string list \<Rightarrow> client \<Rightarrow> client" where
  "emit_publications r [] s = s"
| "emit_publications r (p # ps) s = emit_publications r ps (emit (OnPublication r p) s)"

definition move_subscribed :: "sref \<Rightarrow> subscribe_result \<Rightarrow> client \<Rightarrow> error + client" where
  "move_subscribed r res s =
     (case sub_objs s r of
        None \<Rightarrow> Inr s
      | Some sb \<Rightarrow>
          (if fut_done (subscribed_future sb) then Inl InvalidStateError
           else
             (let s1 = upd_sub r (\<lambda>x. x\<lparr>sub_state := SUBSCRIBED,
                                        subscribed_future := Result True\<rparr>) s
              in case (if (case s_expires res of None \<Rightarrow> False | Some b \<Rightarrow> b)
                       then (case s_ttl res of
                               None \<Rightarrow> Inl (KeyError ''ttl'')
                             | Some ttl \<Rightarrow>
                                 (case call_later ttl (SubRefreshCb r) s1 of
                                    (h, s') \<Rightarrow>
                                      Inr (upd_sub r (\<lambda>x. x\<lparr>sub_refresh_timer := Some h\<rparr>) s')))
                       else Inr s1) of
                   Inl e \<Rightarrow> Inl e
                 | Inr s2 \<Rightarrow>
                     Inr (clear_subscribing_state r
                            (emit_publications r (s_publications res)
                               (emit (OnSubscribed r res) s2))))))"

text \<open>
  \<^verbatim>\<open>Client._subscribe\<close>: \<open>client_subscribe_send\<close> runs to \<^verbatim>\<open>reply = await future\<close>
  (the token provider of the subscription is taken as in \<open>create_connection_token\<close>),
  \<open>client_subscribe_result\<close> is the body after it, \<open>client_subscribe_resume\<close> adds
  the exit of the context manager.
\<close>

definition client_subscribe_send ::
  "env \<Rightarrow> string \<Rightarrow> (error + string) option \<Rightarrow> client
     \<Rightarrow> error + ((sref \<times> fref \<times> fref) option \<times> client)" where
  "client_subscribe_send env ch provided s =
     (case map_of (subs s) ch of
        None \<Rightarrow> Inr (None, s)
      | Some r \<Rightarrow>
          (case sub_objs s r of
             None \<Rightarrow> Inr (None, s)
           | Some sb \<Rightarrow>
               (if state s \<noteq> CONNECTED then Inr (None, s)
                else
                  (case (if sub_token sb \<noteq> [] then Inr (Some (Some (sub_token sb)), s)
                         else (case provided of
                                 None \<Rightarrow> Inr (Some None, s)
                               | Some (Inr tok) \<Rightarrow>
                                   Inr (Some (Some tok), upd_sub r (\<lambda>x. x\<lparr>sub_token := tok\<rparr>) s)
                               | Some (Inl e) \<Rightarrow>
                                   (if e = UnauthorizedError
                                    then (case move_unsubscribed env r
                                                 (code_number env (UC UNSUBSCRIBED_UNAUTHORIZED))
                                                 (code_message env (UC UNSUBSCRIBED_UNAUTHORIZED))
                                                 False s of
                                            Inl e' \<Rightarrow> Inl e'
                                          | Inr (_, s') \<Rightarrow> Inr (None, s'))
                                    else Inr (None,
                                           spawn (SubResubscribeTask r)
                                             (emit (OnSubscriptionError r
                                                      (code_number env
                                                         (EC SUBSCRIPTION_SUBSCRIBE_TOKEN)) e)
                                                s))))) of
                     Inl e \<Rightarrow> Inl e
                   | Inr (None, s1) \<Rightarrow> Inr (None, s1)
                   | Inr (Some tok, s1) \<Rightarrow>
                       (case next_command_id s1 of
                          (c, s2) \<Rightarrow>
                            (case register_future_with_done c (timeout s2) s2 of
                               ((f, d), s3) \<Rightarrow>
                                 (case send_commands env [SubscribeCmd c ch tok] s3 of
                                    Inl e \<Rightarrow> Inl e
                                  | Inr s4 \<Rightarrow> Inr (Some (r, f, d), s4))))))))"

definition subscribe_reply_error :: "env \<Rightarrow> sref \<Rightarrow> error_payload \<Rightarrow> client \<Rightarrow> error + client" where
  "subscribe_reply_error env r err s =
     (let code = e_code err;
          message = e_message err;
          expired = is_token_expired env code;
          temporary = (if expired then True
                       else (case e_temporary err of None \<Rightarrow> False | Some b \<Rightarrow> b));
          s1 = (if expired then upd_sub r (\<lambda>x. x\<lparr>sub_token := []\<rparr>) s else s)
      in if temporary
         then Inr (schedule_resubscribe env r
                     (emit (OnSubscriptionError r (code_number env (EC SUBSCRIBE_REPLY_ERROR))
                                                  (ReplyError code message temporary)) s1))
         else (case move_unsubscribed env r code message False s1 of
                 Inl e \<Rightarrow> Inl e
               | Inr (_, s2) \<Rightarrow> Inr s2))"

definition client_subscribe_result ::
  "env \<Rightarrow> sref \<Rightarrow> reply fut \<Rightarrow> client \<Rightarrow> error + client" where
  "client_subscribe_result env r outcome s =
     (if (case sub_objs s r of None \<Rightarrow> True | Some sb \<Rightarrow> sub_state sb \<noteq> SUBSCRIBING)
      then Inr s
      else (case outcome of
              Pending \<Rightarrow> Inr s
            | Exception e \<Rightarrow>
                (case e of
                   OperationTimeoutError m \<Rightarrow>
                     Inr (schedule_resubscribe env r
                            (emit (OnSubscriptionError r (code_number env (EC TIMEOUT)) e) s))
                 | _ \<Rightarrow>
                     Inr (schedule_resubscribe env r
                            (emit (OnSubscriptionError r
                                     (code_number env (EC ERROR_TRANSPORT_CLOSED)) e) s)))
            | Result rp \<Rightarrow>
                (case r_error rp of
                   Some err \<Rightarrow> subscribe_reply_error env r err s
                 | None \<Rightarrow>
                     (case r_subscribe rp of
                        None \<Rightarrow> Inl (KeyError ''subscribe'')
                      | Some res \<Rightarrow> move_subscribed r res s))))"

definition client_subscribe_resume ::
  "env \<Rightarrow> sref \<Rightarrow> fref \<Rightarrow> fref \<Rightarrow> client \<Rightarrow> error + client" where
  "client_subscribe_resume env r f d s =
     (case futs s f of
        None \<Rightarrow> Inr s
      | Some Pending \<Rightarrow> Inr s
      | Some outcome \<Rightarrow>
          (case client_subscribe_result env r outcome s of
             Inl e \<Rightarrow> Inl e
           | Inr s' \<Rightarrow> with_done_exit d s'))"

subsection \<open>Replies and pushes\<close>

text \<open>\<^verbatim>\<open>Client._handle_ping\<close>, \<^verbatim>\<open>Client._process_publication\<close>,
  \<^verbatim>\<open>Client._process_join\<close>, \<^verbatim>\<open>Client._process_leave\<close> and
  \<^verbatim>\<open>Client._process_unsubscribe\<close>.\<close>

definition handle_ping :: "env \<Rightarrow> client \<Rightarrow> error + client" where
  "handle_ping env s =
     (case (if send_pong s then send_commands env [PongCmd] s else Inr s) of
        Inl e \<Rightarrow> Inl e
      | Inr s1 \<Rightarrow> Inr (restart_ping_wait s1))"

definition process_publication :: "string \<Rightarrow> string \<Rightarrow> client \<Rightarrow> client" where
  "process_publication ch pub s =
     (case map_of (subs s) ch of None \<Rightarrow> s | Some r \<Rightarrow> emit (OnPublication r pub) s)"

definition process_join :: "string \<Rightarrow> string \<Rightarrow> client \<Rightarrow> client" where
  "process_join ch info s =
     (case map_of (subs s) ch of None \<Rightarrow> s | Some r \<Rightarrow> emit (OnJoin r info) s)"

definition process_leave :: "string \<Rightarrow> string \<Rightarrow> client \<Rightarrow> client" where
  "process_leave ch info s =
     (case map_of (subs s) ch of None \<Rightarrow> s | Some r \<Rightarrow> emit (OnLeave r info) s)"

definition process_unsubscribe :: "string \<Rightarrow> unsubscribe_payload \<Rightarrow> client \<Rightarrow> error + client" where
  "process_unsubscribe ch u s =
     (case map_of (subs s) ch of
        None \<Rightarrow> Inr s
      | Some r \<Rightarrow>
          (case u_code u of
             None \<Rightarrow> Inl (KeyError ''code'')
           | Some code \<Rightarrow>
               (case u_reason u of
                  None \<Rightarrow> Inl (KeyError ''reason'')
                | Some reason \<Rightarrow>
                    (if code < 2500 then Inr (spawn (MoveUnsubscribedTask r code reason) s)
                     else Inr (spawn (MoveSubscribingTask r code reason) s)))))"

text \<open>An empty \<^verbatim>\<open>push\<close> dictionary is falsy.\<close>

definition push_truthy :: "push \<Rightarrow> bool" where
  "push_truthy p =
     (p_channel p \<noteq> None \<or> p_pub p \<noteq> None \<or> p_join p \<noteq> None \<or> p_leave p \<noteq> None
      \<or> p_unsubscribe p \<noteq> None \<or> p_disconnect p \<noteq> None)"

definition process_push :: "env \<Rightarrow> push \<Rightarrow> client \<Rightarrow> error + client" where
  "process_push env p s =
     (case p_pub p of
        Some pub \<Rightarrow>
          (case p_channel p of
             None \<Rightarrow> Inl (KeyError ''channel'')
           | Some ch \<Rightarrow> Inr (process_publication ch pub s))
      | None \<Rightarrow>
     (case p_join p of
        Some info \<Rightarrow>
          (case p_channel p of
             None \<Rightarrow> Inl (KeyError ''channel'')
           | Some ch \<Rightarrow> Inr (process_join ch info s))
      | None \<Rightarrow>
     (case p_leave p of
        Some info \<Rightarrow>
          (case p_channel p of
             None \<Rightarrow> Inl (KeyError ''channel'')
           | Some ch \<Rightarrow> Inr (process_leave ch info s))
      | None \<Rightarrow>
     (case p_unsubscribe p of
        Some u \<Rightarrow>
          (case p_channel p of
             None \<Rightarrow> Inl (KeyError ''channel'')
           | Some ch \<Rightarrow> process_unsubscribe ch u s)
      | None \<Rightarrow>
     (case p_disconnect p of
        Some d \<Rightarrow> process_disconnect env d s
      | None \<Rightarrow> Inr s)))))"

text \<open>\<^verbatim>\<open>Client._process_reply\<close> up to the suspension point of
  \<^verbatim>\<open>_future_success\<close>: the result carries the barrier to await, if any.\<close>

definition process_reply :: "env \<Rightarrow> reply \<Rightarrow> client \<Rightarrow> error + (fref option \<times> client)" where
  "process_reply env rp s =
     (if (case r_id rp of None \<Rightarrow> 0 | Some i \<Rightarrow> i) > 0
      then future_success (case r_id rp of None \<Rightarrow> 0 | Some i \<Rightarrow> i) rp s
      else (case (if (case r_push rp of None \<Rightarrow> False | Some p \<Rightarrow> push_truthy p)
                  then process_push env (the (r_push rp)) s
                  else handle_ping env s) of
              Inl e \<Rightarrow> Inl e
            | Inr s' \<Rightarrow> Inr (None, s')))"

text \<open>
  \<^verbatim>\<open>Client._process_incoming_data\<close>: the process loop inside one transport frame.
  \<open>Running rs\<close>: the replies \<open>rs\<close> of the frame are still to be processed.
  \<open>AwaitDone d rs\<close>: the loop is suspended in \<^verbatim>\<open>await cb.done\<close> on the barrier \<open>d\<close>,
  with \<open>rs\<close> still to come. A step is \<open>None\<close> when the loop cannot run: the frame is
  finished, or the barrier is not yet signalled.
\<close>

datatype proc = Running "reply list" | AwaitDone fref "reply list"

fun proc_step :: "env \<Rightarrow> proc \<Rightarrow> client \<Rightarrow> (error + (proc \<times> client)) option" where
  "proc_step env (Running []) s = None"
| "proc_step env (Running (rp # rs)) s =
     Some (case process_reply env rp s of
             Inl e \<Rightarrow> Inl e
           | Inr (None, s') \<Rightarrow> Inr (Running rs, s')
           | Inr (Some d, s') \<Rightarrow> Inr (AwaitDone d rs, s'))"
| "proc_step env (AwaitDone d rs) s =
     (case dones s d of
        Some (Result b) \<Rightarrow> Some (Inr (Running rs, s))
      | Some (Exception e) \<Rightarrow> Some (Inl e)
      | _ \<Rightarrow> None)"

subsection \<open>The event loop: what can happen to a client\<close>

text \<open>A timer fires: \<^verbatim>\<open>loop.call_later\<close> runs the callback of a handle that was
  not cancelled. All callbacks but the command timeout start a coroutine.\<close>

definition fire_timer :: "tref \<Rightarrow> client \<Rightarrow> error + client" where
  "fire_timer h s =
     (case timers s h of
        None \<Rightarrow> Inr s
      | Some t \<Rightarrow>
          (if t_status t \<noteq> Armed then Inr s
           else
             (let s1 = s\<lparr>timers := (timers s)(h \<mapsto> t\<lparr>t_status := Fired\<rparr>)\<rparr>
              in case t_callback t of
                   TimeoutCb c f \<Rightarrow> timeout_cb c f s1
                 | ReconnectCb \<Rightarrow> Inr (spawn ReconnectTask s1)
                 | NoPingCb \<Rightarrow> Inr (spawn NoPingTask s1)
                 | RefreshCb \<Rightarrow> Inr (spawn RefreshTask s1)
                 | SubRefreshCb r \<Rightarrow> Inr (spawn (SubRefreshTask r) s1)
                 | ResubscribeCb r \<Rightarrow> Inr (spawn (SubResubscribeTask r) s1))))"

text \<open>A command without barrier, as \<^verbatim>\<open>publish\<close>, \<^verbatim>\<open>history\<close>, \<^verbatim>\<open>presence\<close>,
  \<^verbatim>\<open>rpc\<close>, \<^verbatim>\<open>_refresh\<close> and \<^verbatim>\<open>_sub_refresh\<close> issue it: the next id, the registry
  entry, the send.\<close>

definition issue_command :: "env \<Rightarrow> real \<Rightarrow> (int \<Rightarrow> command) \<Rightarrow> client \<Rightarrow> error + (fref \<times> client)" where
  "issue_command env tmo mk s =
     (case next_command_id s of
        (c, s1) \<Rightarrow>
          (case register_future c tmo s1 of
             (f, s2) \<Rightarrow>
               (case send_commands env [mk c] s2 of
                  Inl e \<Rightarrow> Inl e
                | Inr s3 \<Rightarrow> Inr (f, s3))))"

text \<open>The peer or the network closes the transport.\<close>

definition transport_closed :: "int option \<Rightarrow> string \<Rightarrow> client \<Rightarrow> client" where
  "transport_closed code reason s =
     (case conn s of
        None \<Rightarrow> s
      | Some c \<Rightarrow>
          s\<lparr>conn := Some (c\<lparr>ws_state := WS_CLOSED, close_code := code,
                            close_reason := reason\<rparr>)\<rparr>)"

text \<open>
  The atomic segments of the client, as actions. \<open>exec\<close> runs one; the result of a
  segment that returns a future or a reference besides the state is projected to the
  state.
\<close>

datatype action =
  A_connect
  | A_open "error + transport"
  | A_token "(error + string) option"
  | A_connect_send "string option"
  | A_connect_resume fref fref
  | A_disconnect int string bool
  | A_user_disconnect
  | A_listen_exit
  | A_transport_closed "int option" string
  | A_schedule_reconnect
  | A_fire_timer tref
  | A_issue real "int \<Rightarrow> command"
  | A_reply reply
  | A_with_done_exit fref
  | A_new_subscription string string real real
  | A_remove_subscription "sref option"
  | A_subscribe sref
  | A_unsubscribe sref
  | A_unsubscribe_resume fref
  | A_subscribe_send string "(error + string) option"
  | A_subscribe_resume sref fref fref
  | A_move_unsubscribed sref int string
  | A_move_subscribing sref int string
  | A_schedule_resubscribe sref
  | A_resubscribe sref

definition drop_result :: "error + ('a \<times> client) \<Rightarrow> error + client" where
  "drop_result x = (case x of Inl e \<Rightarrow> Inl e | Inr (_, s) \<Rightarrow> Inr s)"

fun exec :: "env \<Rightarrow> action \<Rightarrow> client \<Rightarrow> error + client" where
  "exec env A_connect s = Inr (connect_call env s)"
| "exec env (A_open res) s = Inr (create_connection_open env res s)"
| "exec env (A_token provided) s = drop_result (create_connection_token env provided s)"
| "exec env (A_connect_send tok) s = drop_result (create_connection_send env tok s)"
| "exec env (A_connect_resume f d) s = create_connection_resume env f d s"
| "exec env (A_disconnect code reason reconnect) s = disconnect env code reason reconnect s"
| "exec env A_user_disconnect s = user_disconnect env s"
| "exec env A_listen_exit s = listen_exit env s"
| "exec env (A_transport_closed code reason) s = Inr (transport_closed code reason s)"
| "exec env A_schedule_reconnect s = Inr (schedule_reconnect env s)"
| "exec env (A_fire_timer h) s = fire_timer h s"
| "exec env (A_issue tmo mk) s = drop_result (issue_command env tmo mk s)"
| "exec env (A_reply rp) s = drop_result (process_reply env rp s)"
| "exec env (A_with_done_exit d) s = with_done_exit d s"
| "exec env (A_new_subscription ch tok mn mx) s = drop_result (new_subscription ch tok mn mx s)"
| "exec env (A_remove_subscription ro) s = remove_subscription ro s"
| "exec env (A_subscribe r) s = subscribe env r s"
| "exec env (A_unsubscribe r) s = drop_result (unsubscribe env r s)"
| "exec env (A_unsubscribe_resume f) s = client_unsubscribe_resume env f s"
| "exec env (A_subscribe_send ch provided) s =
     drop_result (client_subscribe_send env ch provided s)"
| "exec env (A_subscribe_resume r f d) s = client_subscribe_resume env r f d s"
| "exec env (A_move_unsubscribed r code reason) s =
     drop_result (move_unsubscribed env r code reason False s)"
| "exec env (A_move_subscribing r code reason) s = move_subscribing r code reason False s"
| "exec env (A_schedule_resubscribe r) s = Inr (schedule_resubscribe env r s)"
| "exec env (A_resubscribe r) s =
     (case sub_objs s r of
        None \<Rightarrow> Inr s
      | Some sb \<Rightarrow> (if sub_state sb \<noteq> SUBSCRIBING then Inr s else Inr (resubscribe r s)))"

text \<open>The states a client reaches from its creation.\<close>

inductive reachable :: "env \<Rightarrow> client \<Rightarrow> bool" for env :: env where
  reachable_init: "reachable env (init tok tmo max_ping_delay min_delay max_delay)"
| reachable_step: "reachable env s \<Longrightarrow> exec env a s = Inr s' \<Longrightarrow> reachable env s'"

text \<open>
  The process loop inside a frame, run together with everything else that can happen
  to the client. A run records its steps: \<open>L_proc\<close> for a step of the process loop,
  \<open>L_act a\<close> for any other segment.
\<close>

datatype label = L_proc | L_act action

inductive sys_run :: "env \<Rightarrow> proc \<times> client \<Rightarrow> label list \<Rightarrow> proc \<times> client \<Rightarrow> bool"
  for env :: env where
  sys_refl: "sys_run env c [] c"
| sys_proc: "sys_run env c tr (p, s) \<Longrightarrow> proc_step env p s = Some (Inr (p', s'))
     \<Longrightarrow> sys_run env c (tr @ [L_proc]) (p', s')"
| sys_act: "sys_run env c tr (p, s) \<Longrightarrow> exec env a s = Inr s'
     \<Longrightarrow> sys_run env c (tr @ [L_act a]) (p, s')"

subsection \<open>Predicates and examples used by the theorems\<close>

text \<open>
  \<open>registry_pending\<close>: every record of the registry holds a pending future and, if
  it has one, a pending barrier; no two records share a command id, a future or a
  barrier. This is the state of the registry between two segments, since every
  registration allocates its futures and every resolution removes the record.
\<close>

definition registry_pending :: "client \<Rightarrow> bool" where
  "registry_pending s =
     (distinct (map fst (futures s))
      \<and> distinct (map (\<lambda>x. cb_future (snd x)) (futures s))
      \<and> distinct (concat (map (\<lambda>x. case cb_done (snd x) of None \<Rightarrow> [] | Some d \<Rightarrow> [d])
                                (futures s)))
      \<and> list_all (\<lambda>x. futs s (cb_future (snd x)) = Some Pending
                        \<and> (case cb_done (snd x) of
                              None \<Rightarrow> True
                            | Some d \<Rightarrow> dones s d = Some Pending)) (futures s))"

text \<open>\<open>same_core s s'\<close>: \<open>s'\<close> differs from \<open>s\<close> at most in the subscription
  objects, the timers, the queues, the allocator and by events appended.\<close>

definition same_core :: "client \<Rightarrow> client \<Rightarrow> bool" where
  "same_core s s' =
     (state s' = state s \<and> need_reconnect s' = need_reconnect s
      \<and> futures s' = futures s \<and> futs s' = futs s \<and> dones s' = dones s
      \<and> tasks s' = tasks s \<and> conn s' = conn s \<and> subs s' = subs s
      \<and> connected_future s' = connected_future s
      \<and> connected_future_id s' = connected_future_id s
      \<and> token s' = token s \<and> reconnect_timer s' = reconnect_timer s
      \<and> reconnect_attempts s' = reconnect_attempts s \<and> cmd_id s' = cmd_id s
      \<and> next_ref s \<le> next_ref s' \<and> (\<exists>evs. events s' = events s @ evs))"

text \<open>An environment and a new client for the worked examples: every code is
  numbered 0, the token-expiry code is 109 (the code of scenario S3 of the
  specification), and the backoff is the minimal delay.\<close>

definition example_env :: env where
  "example_env =
     \<lparr> code_number = (\<lambda>_. 0), code_message = (\<lambda>_. []),
       is_token_expired = (\<lambda>c. c = 109), backoff = (\<lambda>n lo hi. lo) \<rparr>"

definition example_client :: client where
  "example_client = init ''t'' 5 10 (1/10) 20"

definition example_transport :: transport where
  "example_transport = \<lparr>ws_state = WS_OPEN, close_code = None, close_reason = [], sent = []\<rparr>"


text \<open>\<open>resolution_ok v\<close>: \<open>v\<close> is a reply, a timeout error or the
  client-disconnected error of a cancelled command.\<close>

definition resolution_ok :: "reply fut \<Rightarrow> bool" where
  "resolution_ok v =
     ((\<exists>rp. v = Result rp) \<or> v = Exception (OperationTimeoutError [])
      \<or> (\<exists>c. v = Exception (ClientDisconnectedError (CommandCanceled c))))"

text \<open>\<open>futs_step s s'\<close>: every reply future allocated in \<open>s\<close> is unchanged in \<open>s'\<close>,
  or it was pending in \<open>s\<close> and holds an admissible resolution in \<open>s'\<close>.\<close>

definition futs_step :: "client \<Rightarrow> client \<Rightarrow> bool" where
  "futs_step s s' =
     (\<forall>f<next_ref s. futs s' f = futs s f
        \<or> (futs s f = Some Pending \<and> (\<exists>v. futs s' f = Some v \<and> resolution_ok v)))"

text \<open>\<open>conn_inv\<close>: the relation between the state of the client and its connected
  signal.\<close>

definition conn_inv :: "client \<Rightarrow> bool" where
  "conn_inv s =
     (connected_future_id s < next_ref s
      \<and> (state s = CONNECTING \<longrightarrow> connected_future s = Pending)
      \<and> (state s = DISCONNECTED \<longrightarrow>
            connected_future s = Pending
            \<or> (\<exists>c r. connected_future s
                        = Exception (ClientDisconnectedError (ClientDisconnectedText c r))))
      \<and> (state s = CONNECTED \<longrightarrow> connected_future s = Result True)
      \<and> (state s = DISCONNECTED \<and> connected_future s = Pending \<longrightarrow>
            connected_future_id s = 1)
      \<and> 1 \<le> connected_future_id s)"

text \<open>\<open>subs_ok s s'\<close>: no channel of the subscription registry is lost from \<open>s\<close> to
  \<open>s'\<close>, and channels stay unique.\<close>

definition subs_ok :: "client \<Rightarrow> client \<Rightarrow> bool" where
  "subs_ok s s' =
     (fst ` set (subs s) \<subseteq> fst ` set (subs s')
      \<and> (distinct (map fst (subs s)) \<longrightarrow> distinct (map fst (subs s'))))"

text \<open>\<open>step_ok\<close> and \<open>core_ok\<close>: what every segment of the client guarantees
  (\<open>core_ok\<close> without the clause on the subscription registry). \<open>frame\<close>: a segment
  that leaves state, connected signal, reply futures and subscription registry alone.\<close>

definition step_ok :: "client \<Rightarrow> client \<Rightarrow> bool" where
  "step_ok s s' =
     (next_ref s \<le> next_ref s' \<and> futs_step s s' \<and> subs_ok s s'
      \<and> (conn_inv s \<longrightarrow>
            conn_inv s' \<and> connected_future_id s \<le> connected_future_id s'
            \<and> (state s = CONNECTED \<and> state s' \<noteq> CONNECTED \<longrightarrow>
                  connected_future_id s < connected_future_id s')))"

definition frame :: "client \<Rightarrow> client \<Rightarrow> bool" where
  "frame s s' =
     (state s' = state s \<and> connected_future s' = connected_future s
      \<and> connected_future_id s' = connected_future_id s
      \<and> futs s' = futs s \<and> subs s' = subs s \<and> next_ref s \<le> next_ref s')"

text \<open>A list of segments run in order.\<close>

fun run :: "env \<Rightarrow> action list \<Rightarrow> client \<Rightarrow> error + client" where
  "run env [] s = Inr s"
| "run env (a # as) s = (case exec env a s of Inl e \<Rightarrow> Inl e | Inr s' \<Rightarrow> run env as s')"

definition core_ok :: "client \<Rightarrow> client \<Rightarrow> bool" where
  "core_ok s s' =
     (next_ref s \<le> next_ref s' \<and> futs_step s s'
      \<and> (conn_inv s \<longrightarrow>
            conn_inv s' \<and> connected_future_id s \<le> connected_future_id s'
            \<and> (state s = CONNECTED \<and> state s' \<noteq> CONNECTED \<longrightarrow>
                  connected_future_id s < connected_future_id s')))"


definition example_registered :: client where
  "example_registered =
     (case run example_env [A_new_subscription ''news'' [] (1/10) 10] example_client of
        Inl e \<Rightarrow> example_client
      | Inr s \<Rightarrow> s)"

definition example_removed :: client where
  "example_removed =
     (case run example_env [A_remove_subscription (Some 2)] example_registered of
        Inl e \<Rightarrow> example_client
      | Inr s \<Rightarrow> s)"

text \<open>A client that connects, opens its transport, subscribes to a channel, is
  disconnected by the user and then unsubscribes: the unsubscribe command is
  registered while the client is \<open>DISCONNECTED\<close>.\<close>

definition example_pending :: client where
  "example_pending =
     (case run example_env
             [A_connect, A_open (Inr example_transport),
              A_new_subscription ''news'' [] (1/10) 10, A_subscribe 2,
              A_user_disconnect, A_unsubscribe 2] example_client of
        Inl e \<Rightarrow> example_client
      | Inr s \<Rightarrow> s)"

definition example_pending_after :: client where
  "example_pending_after =
     (case disconnect example_env 0 [] False example_pending of
        Inl e \<Rightarrow> example_client
      | Inr s \<Rightarrow> s)"

text \<open>A connecting client with one command pending, and the same client after the
  timeout timer of the command has fired.\<close>

definition example_issued :: client where
  "example_issued =
     (case run example_env
             [A_connect, A_open (Inr example_transport),
              A_issue 5 (\<lambda>c. UnsubscribeCmd c ''news'')] example_client of
        Inl e \<Rightarrow> example_client
      | Inr s \<Rightarrow> s)"

definition example_timed_out :: client where
  "example_timed_out =
     (case exec example_env (A_fire_timer 3) example_issued of
        Inl e \<Rightarrow> example_client
      | Inr s \<Rightarrow> s)"

section \<open>Properties\<close>

subsection \<open>The registry and the internal disconnect\<close>

lemma future_error_shape:
  "future_error c e s = Inr s' \<Longrightarrow>
     s' = s\<lparr>futs := futs s', dones := dones s', futures := futures s'\<rparr>"
  by (auto simp: future_error_def set_exception_def set_done_def
      split: option.splits fut.splits sum.splits)

lemma delete_head: "k \<notin> fst ` set L \<Longrightarrow> AList.delete k ((k, v) # L) = L"
  by (simp add: AList.delete_eq) (induction L, auto)

lemma future_error_all_pending:
  "futures s = L \<Longrightarrow> registry_pending s \<Longrightarrow>
   \<exists>s'. future_error_all (map fst L) s = Inr s'
     \<and> futures s' = []
     \<and> (\<forall>x\<in>set L. futs s' (cb_future (snd x))
            = Some (Exception (ClientDisconnectedError (CommandCanceled (fst x)))))
     \<and> (\<forall>f. f \<notin> (\<lambda>x. cb_future (snd x)) ` set L \<longrightarrow> futs s' f = futs s f)
     \<and> s' = s\<lparr>futs := futs s', dones := dones s', futures := []\<rparr>"
proof (induction L arbitrary: s)
  case Nil
  then show ?case by simp
next
  case (Cons x L)
  obtain c cb where x: "x = (c, cb)" by (cases x)
  let ?e = "ClientDisconnectedError (CommandCanceled c)"
  from Cons.prems have fs: "futures s = (c, cb) # L" by (simp add: x)
  from Cons.prems fs have rp:
    "distinct (map fst ((c, cb) # L))"
    "distinct (map (\<lambda>x. cb_future (snd x)) ((c, cb) # L))"
    "distinct (concat (map (\<lambda>x. case cb_done (snd x) of None \<Rightarrow> [] | Some d \<Rightarrow> [d])
                                ((c, cb) # L)))"
    "list_all (\<lambda>x. futs s (cb_future (snd x)) = Some Pending
                        \<and> (case cb_done (snd x) of
                              None \<Rightarrow> True
                            | Some d \<Rightarrow> dones s d = Some Pending)) ((c, cb) # L)"
    by (simp_all add: registry_pending_def)
  from rp(1) have dk: "c \<notin> fst ` set L" "distinct (map fst L)" by simp_all
  from rp(2) have df: "cb_future cb \<notin> (\<lambda>x. cb_future (snd x)) ` set L"
        "distinct (map (\<lambda>x. cb_future (snd x)) L)" by simp_all
  from rp(4) have pf: "futs s (cb_future cb) = Some Pending" and
    pl: "list_all (\<lambda>x. futs s (cb_future (snd x)) = Some Pending
                        \<and> (case cb_done (snd x) of
                              None \<Rightarrow> True
                            | Some d \<Rightarrow> dones s d = Some Pending)) L"
    by simp_all
  from rp(3) have
    dd: "distinct (concat (map (\<lambda>x. case cb_done (snd x) of None \<Rightarrow> [] | Some d \<Rightarrow> [d]) L))"
    by simp
  have dd1: "dones s d = Some Pending
        \<and> d \<notin> set (concat (map (\<lambda>x. case cb_done (snd x) of None \<Rightarrow> [] | Some d \<Rightarrow> [d]) L))"
    if "cb_done cb = Some d" for d
    using rp(3) rp(4) that by auto
  define s1 where "s1 = (case cb_done cb of
       None \<Rightarrow> s\<lparr>futs := (futs s)(cb_future cb \<mapsto> Exception ?e), futures := L\<rparr>
     | Some d \<Rightarrow> s\<lparr>futs := (futs s)(cb_future cb \<mapsto> Exception ?e),
                    dones := (dones s)(d \<mapsto> Result True), futures := L\<rparr>)"
  have step: "future_error c ?e s = Inr s1"
    using fs pf dd1 dk
    by (auto simp: future_error_def set_exception_def set_done_def s1_def delete_head
        split: option.splits)
  have f1: "futures s1 = L" by (simp add: s1_def split: option.splits)
  have futs1: "futs s1 = (futs s)(cb_future cb \<mapsto> Exception ?e)"
    by (simp add: s1_def split: option.splits)
  have dones1: "\<And>d'. cb_done cb \<noteq> Some d' \<Longrightarrow> dones s1 d' = dones s d'"
    by (auto simp: s1_def split: option.splits)
  have rp1: "registry_pending s1"
    unfolding registry_pending_def f1
  proof (intro conjI)
    show "list_all (\<lambda>x. futs s1 (cb_future (snd x)) = Some Pending
                        \<and> (case cb_done (snd x) of
                              None \<Rightarrow> True
                            | Some d \<Rightarrow> dones s1 d = Some Pending)) L"
      unfolding list_all_iff
    proof
      fix y assume y: "y \<in> set L"
      with pl have py: "futs s (cb_future (snd y)) = Some Pending"
        "(case cb_done (snd y) of None \<Rightarrow> True | Some d \<Rightarrow> dones s d = Some Pending)"
        by (auto simp: list_all_iff)
      from y df have ne: "cb_future (snd y) \<noteq> cb_future cb" by force
      have "\<And>d. cb_done (snd y) = Some d \<Longrightarrow> cb_done cb \<noteq> Some d"
        using dd1 y by force
      then show "futs s1 (cb_future (snd y)) = Some Pending
                        \<and> (case cb_done (snd y) of
                              None \<Rightarrow> True
                            | Some d \<Rightarrow> dones s1 d = Some Pending)"
        using py ne by (auto simp: futs1 dones1 split: option.splits)
    qed
  qed (use dk df dd in auto)
  from Cons.IH[OF f1 rp1] obtain s' where
    r: "future_error_all (map fst L) s1 = Inr s'" "futures s' = []"
       "\<forall>x\<in>set L. futs s' (cb_future (snd x))
            = Some (Exception (ClientDisconnectedError (CommandCanceled (fst x))))"
       "\<forall>f. f \<notin> (\<lambda>x. cb_future (snd x)) ` set L \<longrightarrow> futs s' f = futs s1 f"
       "s' = s1\<lparr>futs := futs s', dones := dones s', futures := []\<rparr>"
    by blast
  have "future_error_all (map fst (x # L)) s = Inr s'"
    using step r(1) by (simp add: x)
  moreover have "futs s' (cb_future cb) = Some (Exception ?e)"
    using r(4) df by (simp add: futs1)
  moreover have "\<forall>f. f \<notin> (\<lambda>x. cb_future (snd x)) ` set (x # L) \<longrightarrow> futs s' f = futs s f"
    using r(4) by (simp add: futs1 x)
  moreover have "s' = s\<lparr>futs := futs s', dones := dones s', futures := []\<rparr>"
    using r(5) by (simp add: s1_def split: option.splits)
  ultimately show ?case using r(2,3) by (auto simp: x)
qed

lemma clear_outgoing_futures_pending:
  "registry_pending s \<Longrightarrow>
   \<exists>s'. clear_outgoing_futures s = Inr s'
     \<and> futures s' = []
     \<and> (\<forall>x\<in>set (futures s). futs s' (cb_future (snd x))
            = Some (Exception (ClientDisconnectedError (CommandCanceled (fst x)))))
     \<and> (\<forall>f. f \<notin> (\<lambda>x. cb_future (snd x)) ` set (futures s) \<longrightarrow> futs s' f = futs s f)
     \<and> s' = s\<lparr>futs := futs s', dones := dones s', futures := []\<rparr>"
  unfolding clear_outgoing_futures_def by (rule future_error_all_pending) simp_all

lemmas frame_defs = emit_def spawn_def cancel_timer_def call_later_def upd_sub_def
  clear_connecting_state_def poison_messages_def close_transport_conn_def
  refresh_connected_future_def refresh_subscribed_future_def clear_subscribed_state_def
  clear_subscribing_state_def Let_def

lemma disconnect_head_frame:
  "futs (disconnect_head rc s) = futs s"
  "dones (disconnect_head rc s) = dones s"
  "futures (disconnect_head rc s) = futures s"
  "state (disconnect_head rc s) = state s"
  "need_reconnect (disconnect_head rc s) = (rc \<and> need_reconnect s)"
  "events (disconnect_head rc s) = events s"
  "tasks (disconnect_head rc s) = tasks s"
  "conn (disconnect_head rc s) = conn s"
  "subs (disconnect_head rc s) = subs s"
  "sub_objs (disconnect_head rc s) = sub_objs s"
  "connected_future (disconnect_head rc s) = connected_future s"
  "connected_future_id (disconnect_head rc s) = connected_future_id s"
  "token (disconnect_head rc s) = token s"
  "cmd_id (disconnect_head rc s) = cmd_id s"
  "ping_timer (disconnect_head rc s) = None"
  "refresh_timer (disconnect_head rc s) = None"
  "reconnect_timer (disconnect_head rc s) = None"
  "reconnect_attempts (disconnect_head rc s) = 0"
  "next_ref (disconnect_head rc s) = Suc (next_ref s)"
  by (simp_all add: disconnect_head_def frame_defs split: option.splits)

lemma registry_pending_cong:
  "futs s' = futs s \<Longrightarrow> dones s' = dones s \<Longrightarrow> futures s' = futures s
   \<Longrightarrow> registry_pending s' = registry_pending s"
  unfolding registry_pending_def by (simp cong: option.case_cong)

lemma same_core_refl: "same_core s s"
  by (simp add: same_core_def)

lemma same_core_trans: "same_core s s1 \<Longrightarrow> same_core s1 s2 \<Longrightarrow> same_core s s2"
  by (auto simp: same_core_def)

lemma move_subscribing_skip:
  "\<exists>s'. move_subscribing r c m True s = Inr s' \<and> same_core s s'"
  by (auto simp: move_subscribing_def frame_defs fut_done_def same_core_def
      split: option.splits)

lemma move_subscribing_all_skip:
  "\<exists>s'. move_subscribing_all env rs s = Inr s' \<and> same_core s s'"
proof (induction rs arbitrary: s)
  case Nil
  show ?case by (simp add: same_core_refl)
next
  case (Cons r rs)
  show ?case
  proof (cases "case sub_objs s r of None \<Rightarrow> False | Some sb \<Rightarrow> sub_state sb = SUBSCRIBED")
    case False
    with Cons.IH[of s] show ?thesis by simp
  next
    case True
    obtain s1 where s1: "move_subscribing r (code_number env (SC SUBSCRIBING_TRANSPORT_CLOSED))
                   (code_message env (SC SUBSCRIBING_TRANSPORT_CLOSED)) True s = Inr s1"
      "same_core s s1"
      using move_subscribing_skip by blast
    from Cons.IH[of s1] obtain s' where s': "move_subscribing_all env rs s1 = Inr s'"
      "same_core s1 s'"
      by blast
    from s1(2) s'(2) have "same_core s s'" by (rule same_core_trans)
    then show ?thesis using True s1(1) s'(1) by auto
  qed
qed

lemma disconnect_tail_effect:
  "\<exists>s'. disconnect_tail env c r rc s = Inr s'
     \<and> state s' = state s \<and> need_reconnect s' = need_reconnect s
     \<and> futures s' = futures s \<and> futs s' = futs s \<and> dones s' = dones s
     \<and> subs s' = subs s \<and> connected_future s' = connected_future s
     \<and> connected_future_id s' = connected_future_id s
     \<and> token s' = token s \<and> reconnect_timer s' = reconnect_timer s
     \<and> reconnect_attempts s' = reconnect_attempts s \<and> cmd_id s' = cmd_id s
     \<and> next_ref s \<le> next_ref s'
     \<and> tasks s' = (if rc then tasks s @ [ScheduleReconnectTask] else tasks s)
     \<and> (\<exists>evs. events s' = events s @ evs @ [OnDisconnected c r])
     \<and> conn s' = map_option (\<lambda>t. t\<lparr>ws_state := WS_CLOSED\<rparr>) (conn s)"
proof -
  define s1 where "s1 = (if (case conn s of None \<Rightarrow> False | Some c \<Rightarrow> ws_state c \<noteq> WS_CLOSED)
                then close_transport_conn s else s)"
  have c1: "conn s1 = map_option (\<lambda>t. t\<lparr>ws_state := WS_CLOSED\<rparr>) (conn s)"
    by (auto simp: s1_def close_transport_conn_def split: option.splits)
  have f1: "state s1 = state s" "need_reconnect s1 = need_reconnect s"
    "futures s1 = futures s" "futs s1 = futs s" "dones s1 = dones s"
    "subs s1 = subs s" "connected_future s1 = connected_future s"
    "connected_future_id s1 = connected_future_id s" "token s1 = token s"
    "reconnect_timer s1 = reconnect_timer s" "reconnect_attempts s1 = reconnect_attempts s"
    "cmd_id s1 = cmd_id s" "next_ref s1 = next_ref s" "tasks s1 = tasks s"
    "events s1 = events s"
    by (auto simp: s1_def close_transport_conn_def split: option.splits)
  obtain s2 where s2: "move_subscribing_all env (map snd (subs s1)) s1 = Inr s2"
      "same_core s1 s2"
    using move_subscribing_all_skip by blast
  from s2(2) obtain evs where evs: "events s2 = events s1 @ evs"
    by (auto simp: same_core_def)
  show ?thesis
    unfolding disconnect_tail_def Let_def s1_def[symmetric] s2(1)
    using s2(2) evs by (simp add: emit_def spawn_def c1 f1 same_core_def)
qed

lemma disconnect_idle:
  "state s = DISCONNECTED \<Longrightarrow> disconnect env c r rc s = Inr (disconnect_head rc s)"
  by (simp add: disconnect_def disconnect_head_frame)

lemma disconnect_effect:
  assumes "registry_pending s" and "state s \<noteq> DISCONNECTED"
  shows "\<exists>s'. disconnect env c r rc s = Inr s'
     \<and> state s' = (if rc then CONNECTING else DISCONNECTED)
     \<and> need_reconnect s' = (rc \<and> need_reconnect s)
     \<and> futures s' = []
     \<and> (\<forall>x\<in>set (futures s). futs s' (cb_future (snd x))
            = Some (Exception (ClientDisconnectedError (CommandCanceled (fst x)))))
     \<and> (\<forall>f. f \<notin> (\<lambda>x. cb_future (snd x)) ` set (futures s) \<longrightarrow> futs s' f = futs s f)
     \<and> tasks s' = (if rc then tasks s @ [ScheduleReconnectTask] else tasks s)
     \<and> (\<exists>evs. events s' = events s @ evs @ [OnDisconnected c r])
     \<and> connected_future s'
          = (if rc then Pending
             else Exception (ClientDisconnectedError (ClientDisconnectedText c r)))
     \<and> conn s' = map_option (\<lambda>t. t\<lparr>ws_state := WS_CLOSED\<rparr>) (conn s)
     \<and> token s' = token s \<and> reconnect_timer s' = None \<and> reconnect_attempts s' = 0
     \<and> subs s' = subs s \<and> cmd_id s' = cmd_id s \<and> next_ref s < next_ref s'"
proof -
  let ?h = "disconnect_head rc s"
  have "registry_pending ?h"
    using assms(1) by (simp add: registry_pending_cong[of ?h s] disconnect_head_frame)
  from clear_outgoing_futures_pending[OF this] obtain s2 where s2:
    "clear_outgoing_futures ?h = Inr s2" "futures s2 = []"
    "\<forall>x\<in>set (futures s). futs s2 (cb_future (snd x))
        = Some (Exception (ClientDisconnectedError (CommandCanceled (fst x))))"
    "\<forall>f. f \<notin> (\<lambda>x. cb_future (snd x)) ` set (futures s) \<longrightarrow> futs s2 f = futs s f"
    "s2 = ?h\<lparr>futs := futs s2, dones := dones s2, futures := []\<rparr>"
    by (auto simp: disconnect_head_frame)
  have h2: "state s2 = state s" "need_reconnect s2 = (rc \<and> need_reconnect s)"
    "tasks s2 = tasks s" "events s2 = events s" "conn s2 = conn s" "token s2 = token s"
    "reconnect_timer s2 = None" "reconnect_attempts s2 = 0" "subs s2 = subs s"
    "cmd_id s2 = cmd_id s" "next_ref s2 = Suc (next_ref s)"
    "connected_future s2 = connected_future s"
    by (subst s2(5), simp add: disconnect_head_frame)+
  let ?g = "disconnect_signal c r rc s2"
  have g: "state ?g = (if rc then CONNECTING else DISCONNECTED)"
    "need_reconnect ?g = (rc \<and> need_reconnect s)" "futures ?g = []" "futs ?g = futs s2"
    "tasks ?g = tasks s" "events ?g = events s" "conn ?g = conn s" "token ?g = token s"
    "reconnect_timer ?g = None" "reconnect_attempts ?g = 0" "subs ?g = subs s"
    "cmd_id ?g = cmd_id s" "next_ref s < next_ref ?g"
    "connected_future ?g = (if rc then Pending
             else Exception (ClientDisconnectedError (ClientDisconnectedText c r)))"
    using h2 s2(2)
    by (auto simp: disconnect_signal_def refresh_connected_future_def fut_done_def Let_def)
  from disconnect_tail_effect[of env c r rc ?g] obtain s' where s':
    "disconnect_tail env c r rc ?g = Inr s'"
    "state s' = state ?g" "need_reconnect s' = need_reconnect ?g"
    "futures s' = futures ?g" "futs s' = futs ?g"
    "subs s' = subs ?g" "connected_future s' = connected_future ?g"
    "token s' = token ?g" "reconnect_timer s' = reconnect_timer ?g"
    "reconnect_attempts s' = reconnect_attempts ?g" "cmd_id s' = cmd_id ?g"
    "next_ref ?g \<le> next_ref s'"
    "tasks s' = (if rc then tasks ?g @ [ScheduleReconnectTask] else tasks ?g)"
    "\<exists>evs. events s' = events ?g @ evs @ [OnDisconnected c r]"
    "conn s' = map_option (\<lambda>t. t\<lparr>ws_state := WS_CLOSED\<rparr>) (conn ?g)"
    by blast
  have "disconnect env c r rc s = Inr s'"
    using assms(2) s2(1) s'(1) by (simp add: disconnect_def disconnect_head_frame Let_def)
  moreover have "next_ref s < next_ref s'"
    using s'(12) g(13) by linarith
  moreover have "tasks s' = (if rc then tasks s @ [ScheduleReconnectTask] else tasks s)"
    by (simp only: s'(13) g(5))
  moreover have "\<exists>evs. events s' = events s @ evs @ [OnDisconnected c r]"
    using s'(14) by (simp only: g(6))
  moreover have "\<forall>x\<in>set (futures s). futs s' (cb_future (snd x))
            = Some (Exception (ClientDisconnectedError (CommandCanceled (fst x))))"
    using s2(3) s'(5) g(4) by simp
  moreover have "\<forall>f. f \<notin> (\<lambda>x. cb_future (snd x)) ` set (futures s) \<longrightarrow> futs s' f = futs s f"
    using s2(4) s'(5) g(4) by simp
  moreover have "state s' = (if rc then CONNECTING else DISCONNECTED)"
    "need_reconnect s' = (rc \<and> need_reconnect s)" "futures s' = []"
    "connected_future s' = (if rc then Pending
             else Exception (ClientDisconnectedError (ClientDisconnectedText c r)))"
    "conn s' = map_option (\<lambda>t. t\<lparr>ws_state := WS_CLOSED\<rparr>) (conn s)"
    "token s' = token s" "reconnect_timer s' = None" "reconnect_attempts s' = 0"
    "subs s' = subs s" "cmd_id s' = cmd_id s"
    using s' g by simp_all
  ultimately show ?thesis by blast
qed



subsection \<open>Server-initiated disconnect\<close>



subsection \<open>Transport close\<close>

lemma listen_close_server_code:
  "3000 \<le> c \<Longrightarrow> listen_close env (Some c) r =
     (c, r, \<not> ((3500 \<le> c \<and> c < 4000) \<or> (4500 \<le> c \<and> c < 5000)))"
  by (auto simp: listen_close_def Let_def)

lemma listen_close_low_code:
  "c < 3000 \<Longrightarrow> listen_close env (Some c) r =
     (if c = 1009
      then (code_number env (DC MESSAGE_SIZE_LIMIT), code_message env (DC MESSAGE_SIZE_LIMIT), True)
      else (code_number env (CC CONNECTING_TRANSPORT_CLOSED),
            code_message env (CC CONNECTING_TRANSPORT_CLOSED), True))"
  by (auto simp: listen_close_def Let_def)

text \<open>
  Claim C1. When the receive loop ends on a close code of 3000 or more, the client
  runs its internal disconnect with the close code and reason of the server, and it
  should reconnect exactly for the codes in [3500, 4000) and [4500, 5000), as for a
  disconnect push. The code does the opposite for the reconnect flag: at close code
  3500 \<open>_listen\<close> passes reconnect = false, at 3000 it passes reconnect = true, while
  \<open>_process_disconnect\<close> reconnects at 3500 and not at 3000
  (\<open>process_disconnect_policy\<close>). The theorem evaluates \<open>listen_close\<close> at both
  codes.
\<close>

theorem listen_close_inverts_reconnect:
  "listen_close env (Some 3500) r = (3500, r, False)
   \<and> listen_close env (Some 3000) r = (3000, r, True)"
  by (simp add: listen_close_def)

subsection \<open>Error reply to the connect command\<close>




subsection \<open>Resolving a command with an error\<close>

text \<open>
  Claim C7. Resolving a pending command with an error should fail the future, remove
  the record, cancel the timeout timer and signal the barrier. \<open>_future_error\<close> does
  not cancel the timer: after a command is registered with a timeout of 5 seconds and
  failed with a client-disconnected error, its future is failed and its record is
  gone, but its timer is still armed. \<open>_future_success\<close> on the same state cancels
  the timer.
\<close>

theorem future_error_leaves_timer_armed:
  "(case register_future 1 5 example_client of
      (f, s) \<Rightarrow>
        (case future_error 1 (ClientDisconnectedError (CommandCanceled 1)) s of
           Inl e \<Rightarrow> False
         | Inr s' \<Rightarrow>
             futs s' f = Some (Exception (ClientDisconnectedError (CommandCanceled 1)))
             \<and> futures s' = []
             \<and> map_option t_status (timers s' (Suc f)) = Some Armed)
        \<and> (case future_success 1 rp s of
           Inl e \<Rightarrow> False
         | Inr (d, s') \<Rightarrow>
             futs s' f = Some (Result rp)
             \<and> futures s' = []
             \<and> map_option t_status (timers s' (Suc f)) = Some Cancelled))"
  by (simp add: register_future_def example_client_def init_def arm_timeout_def call_later_def
      future_error_def set_exception_def future_success_def set_result_def cancel_timer_def)

subsection \<open>Subscribing again\<close>

lemmas sub_eval = example_client_def init_def new_subscription_def get_subscription_def
  subscribe_def upd_sub_def emit_def spawn_def resubscribe_def move_unsubscribed_def
  clear_subscribing_state_def clear_subscribed_state_def refresh_subscribed_future_def
  fut_done_def move_subscribed_def move_subscribing_def

text \<open>
  Claim C8. \<open>Subscription.subscribe\<close> should replace a resolved subscribed signal
  with a fresh one. It does not: a subscription that was subscribing and then moved to
  unsubscribed holds a failed signal; after \<open>subscribe\<close> it is \<open>SUBSCRIBING\<close> with the
  same failed signal, so that the success of the subscribe command raises
  \<open>InvalidStateError\<close> in \<open>_move_subscribed\<close>. \<open>move_subscribing\<close> on the same
  state replaces the signal with a pending one.
\<close>

theorem subscribe_keeps_failed_signal:
  "(case new_subscription ''news'' [] (1/10) 10 example_client of
      Inl e \<Rightarrow> False
    | Inr (r, s1) \<Rightarrow>
        (case subscribe env r s1 of
           Inl e \<Rightarrow> False
         | Inr s2 \<Rightarrow>
             (case move_unsubscribed env r 2000 ''gone'' False s2 of
                Inl e \<Rightarrow> False
              | Inr (w, s3) \<Rightarrow>
                  (case subscribe env r s3 of
                     Inl e \<Rightarrow> False
                   | Inr s4 \<Rightarrow>
                       map_option sub_state (sub_objs s4 r) = Some SUBSCRIBING
                       \<and> map_option subscribed_future (sub_objs s4 r)
                           = Some (Exception (SubscriptionUnsubscribedError
                                                ''subscription unsubscribed''))
                       \<and> move_subscribed r res s4 = Inl InvalidStateError)
                  \<and> (case move_subscribing r 2600 ''x'' True s3 of
                     Inl e \<Rightarrow> False
                   | Inr s4 \<Rightarrow>
                       map_option sub_state (sub_objs s4 r) = Some SUBSCRIBING
                       \<and> map_option subscribed_future (sub_objs s4 r) = Some Pending))))"
  by (simp add: sub_eval)

subsection \<open>What every segment guarantees\<close>

lemma step_ok_refl: "step_ok s s"
  by (simp add: step_ok_def futs_step_def subs_ok_def)

lemma futs_step_trans:
  "next_ref s \<le> next_ref s1 \<Longrightarrow> futs_step s s1 \<Longrightarrow> futs_step s1 s2 \<Longrightarrow> futs_step s s2"
  unfolding futs_step_def
proof (intro allI impI)
  fix f assume a: "next_ref s \<le> next_ref s1"
    and b: "\<forall>f<next_ref s. futs s1 f = futs s f
        \<or> (futs s f = Some Pending \<and> (\<exists>v. futs s1 f = Some v \<and> resolution_ok v))"
    and c: "\<forall>f<next_ref s1. futs s2 f = futs s1 f
        \<or> (futs s1 f = Some Pending \<and> (\<exists>v. futs s2 f = Some v \<and> resolution_ok v))"
    and f: "f < next_ref s"
  from a f have f1: "f < next_ref s1" by simp
  from b f have b': "futs s1 f = futs s f
        \<or> (futs s f = Some Pending \<and> (\<exists>v. futs s1 f = Some v \<and> resolution_ok v))" by blast
  from c f1 have c': "futs s2 f = futs s1 f
        \<or> (futs s1 f = Some Pending \<and> (\<exists>v. futs s2 f = Some v \<and> resolution_ok v))" by blast
  from b' c' show "futs s2 f = futs s f
        \<or> (futs s f = Some Pending \<and> (\<exists>v. futs s2 f = Some v \<and> resolution_ok v))"
    by (auto simp: resolution_ok_def)
qed

lemma step_ok_trans: "step_ok s s1 \<Longrightarrow> step_ok s1 s2 \<Longrightarrow> step_ok s s2"
  unfolding step_ok_def
  by (auto intro: futs_step_trans simp: subs_ok_def)

lemma frame_step_ok: "frame s s' \<Longrightarrow> step_ok s s'"
  by (auto simp: frame_def step_ok_def futs_step_def subs_ok_def conn_inv_def)

lemma frame_refl: "frame s s"
  by (simp add: frame_def)

lemma frame_trans: "frame s s1 \<Longrightarrow> frame s1 s2 \<Longrightarrow> frame s s2"
  by (auto simp: frame_def)

lemma same_core_frame: "same_core s s' \<Longrightarrow> frame s s'"
  by (simp add: same_core_def frame_def)

lemma frame_prims:
  "frame s (emit e s)"
  "frame s (spawn t s)"
  "frame s (cancel_timer h s)"
  "frame s (snd (call_later dl cb s))"
  "frame s (upd_sub r g s)"
  "frame s (refresh_subscribed_future r s)"
  "frame s (clear_subscribed_state r s)"
  "frame s (clear_subscribing_state r s)"
  "frame s (clear_connecting_state s)"
  "frame s (poison_messages s)"
  "frame s (close_transport_conn s)"
  "frame s (schedule_reconnect env s)"
  "frame s (restart_ping_wait s)"
  "frame s (snd (next_command_id s))"
  "frame s (transport_closed co re s)"
  "frame s (create_connection_open env res s)"
  "frame s (schedule_resubscribe env r s)"
  "frame s (process_publication ch p s)"
  "frame s (process_join ch p s)"
  "frame s (process_leave ch p s)"
  "frame s (disconnect_head rc s)"
  by (auto simp: frame_def frame_defs schedule_reconnect_def restart_ping_wait_def
      next_command_id_def transport_closed_def create_connection_open_def
      schedule_resubscribe_def process_publication_def process_join_def process_leave_def
      disconnect_head_def
      split: option.splits sum.splits)

lemmas frame_after = frame_prims[THEN frame_trans[rotated]]

lemma frame_emit_publications: "frame s (emit_publications r ps s)"
proof (induction ps arbitrary: s)
  case Nil show ?case by (simp add: frame_refl)
next
  case (Cons p ps)
  have "frame s (emit (OnPublication r p) s)" by (rule frame_prims)
  with Cons[of "emit (OnPublication r p) s"] show ?case
    by (auto intro: frame_trans)
qed

lemma frame_subscribe_tasks: "frame s (subscribe_tasks xs s)"
proof (induction xs arbitrary: s)
  case Nil show ?case by (simp add: frame_refl)
next
  case (Cons x xs)
  obtain ch r where x: "x = (ch, r)" by (cases x)
  show ?case
    unfolding x subscribe_tasks.simps
    by (rule frame_trans[OF _ Cons]) (simp add: frame_prims frame_refl)
qed

lemma frame_set_done: "set_done d s = Inr s' \<Longrightarrow> frame s s'"
  by (auto simp: set_done_def frame_def split: option.splits fut.splits)

lemma frame_process_unsubscribe: "process_unsubscribe ch u s = Inr s' \<Longrightarrow> frame s s'"
  by (auto simp: process_unsubscribe_def frame_def spawn_def split: option.splits if_splits)

lemma frame_move_subscribing: "move_subscribing r c m sk s = Inr s' \<Longrightarrow> frame s s'"
  by (auto simp: move_subscribing_def frame_def frame_defs fut_done_def
      split: option.splits if_splits)

lemma frame_move_subscribed: "move_subscribed r res s = Inr s' \<Longrightarrow> frame s s'"
proof -
  assume a: "move_subscribed r res s = Inr s'"
  show ?thesis
  proof (cases "sub_objs s r")
    case None
    with a show ?thesis by (simp add: move_subscribed_def frame_refl)
  next
    case (Some sb)
    let ?s1 = "upd_sub r (\<lambda>x. x\<lparr>sub_state := SUBSCRIBED, subscribed_future := Result True\<rparr>) s"
    let ?mid = "(if (case s_expires res of None \<Rightarrow> False | Some b \<Rightarrow> b)
                       then (case s_ttl res of
                               None \<Rightarrow> Inl (KeyError ''ttl'')
                             | Some ttl \<Rightarrow>
                                 (case call_later ttl (SubRefreshCb r) ?s1 of
                                    (h, s') \<Rightarrow>
                                      Inr (upd_sub r (\<lambda>x. x\<lparr>sub_refresh_timer := Some h\<rparr>) s')))
                       else Inr ?s1)"
    from a Some obtain s2 where mid: "?mid = Inr s2" and
      s': "s' = clear_subscribing_state r
                            (emit_publications r (s_publications res)
                               (emit (OnSubscribed r res) s2))"
      by (cases ?mid) (auto simp: move_subscribed_def Let_def split: if_splits)
    from mid have f2: "frame s s2"
      by (auto simp: frame_def upd_sub_def call_later_def Some
          split: if_splits option.splits)
    show ?thesis
      unfolding s'
      by (rule frame_trans[OF f2], rule frame_trans[OF frame_prims(1)],
          rule frame_trans[OF frame_emit_publications], rule frame_prims)
  qed
qed

lemma step_set_result: "set_result f rp s = Inr s' \<Longrightarrow> step_ok s s'"
  by (auto simp: set_result_def step_ok_def futs_step_def subs_ok_def conn_inv_def
      resolution_ok_def split: option.splits fut.splits if_splits)

lemma step_set_exception:
  "resolution_ok (Exception e) \<Longrightarrow> set_exception f e s = Inr s' \<Longrightarrow> step_ok s s'"
  by (auto simp: set_exception_def step_ok_def futs_step_def subs_ok_def conn_inv_def
      split: option.splits fut.splits if_splits)

lemma frame_futures_upd: "frame s (s\<lparr>futures := L\<rparr>)"
  by (simp add: frame_def)

lemma step_future_error:
  assumes "resolution_ok (Exception e)" and "future_error c e s = Inr s'"
  shows "step_ok s s'"
proof (cases "map_of (futures s) c")
  case None
  with assms(2) show ?thesis by (simp add: future_error_def step_ok_refl)
next
  case (Some cb)
  from assms(2) Some obtain s1 s2 where
    s1: "set_exception (cb_future cb) e s = Inr s1" and
    s2: "(case cb_done cb of None \<Rightarrow> Inr s1 | Some d \<Rightarrow> set_done d s1) = Inr s2" and
    s': "s' = s2\<lparr>futures := AList.delete c (futures s2)\<rparr>"
    by (auto simp: future_error_def split: sum.splits)
  have a: "step_ok s s1" using assms(1) s1 by (rule step_set_exception)
  have b: "frame s1 s2" using s2
    by (cases "cb_done cb") (auto simp: frame_refl intro: frame_set_done)
  have c: "frame s2 s'" unfolding s' by (rule frame_futures_upd)
  from a b c show ?thesis
    by (blast intro: step_ok_trans frame_step_ok)
qed

lemma step_future_success:
  assumes "future_success c rp s = Inr (d, s')"
  shows "step_ok s s'"
proof (cases "map_of (futures s) c")
  case None
  with assms show ?thesis by (simp add: future_success_def step_ok_refl)
next
  case (Some cb)
  from assms Some obtain s1 where
    s1: "set_result (cb_future cb) rp s = Inr s1" and
    s': "s' = (case cb_timeout cb of None \<Rightarrow> s1\<lparr>futures := AList.delete c (futures s1)\<rparr>
               | Some h \<Rightarrow> cancel_timer h (s1\<lparr>futures := AList.delete c (futures s1)\<rparr>))"
    by (auto simp: future_success_def Let_def split: sum.splits)
  have a: "step_ok s s1" using s1 by (rule step_set_result)
  have c: "frame s1 s'" unfolding s'
    by (cases "cb_timeout cb")
       (auto intro: frame_trans[OF frame_futures_upd] frame_prims frame_futures_upd)
  from a c show ?thesis
    by (blast intro: step_ok_trans frame_step_ok)
qed

lemma step_register_future: "step_ok s (snd (register_future c tmo s))"
  by (auto simp: register_future_def arm_timeout_def call_later_def Let_def step_ok_def
      futs_step_def subs_ok_def conn_inv_def)

lemma step_register_future_with_done: "step_ok s (snd (register_future_with_done c tmo s))"
  by (auto simp: register_future_with_done_def arm_timeout_def call_later_def Let_def
      step_ok_def futs_step_def subs_ok_def conn_inv_def)

lemma step_future_error_all: "future_error_all cs s = Inr s' \<Longrightarrow> step_ok s s'"
proof (induction cs arbitrary: s)
  case Nil
  then show ?case by (simp add: step_ok_refl)
next
  case (Cons c cs)
  from Cons.prems obtain s1 where
    s1: "future_error c (ClientDisconnectedError (CommandCanceled c)) s = Inr s1" and
    r: "future_error_all cs s1 = Inr s'"
    by (auto split: sum.splits)
  have "resolution_ok (Exception (ClientDisconnectedError (CommandCanceled c)))"
    by (simp add: resolution_ok_def)
  from step_future_error[OF this s1] Cons.IH[OF r] show ?case
    by (rule step_ok_trans)
qed

lemma step_timeout_cb: "timeout_cb c f s = Inr s' \<Longrightarrow> step_ok s s'"
  by (auto simp: timeout_cb_def step_ok_refl resolution_ok_def
      intro: step_future_error split: if_splits)

lemma step_disconnect_signal: "step_ok s (disconnect_signal c r rc s)"
  by (auto simp: disconnect_signal_def refresh_connected_future_def Let_def step_ok_def
      futs_step_def subs_ok_def conn_inv_def fut_done_def)

lemma frame_disconnect_tail: "disconnect_tail env c r rc s = Inr s' \<Longrightarrow> frame s s'"
  using disconnect_tail_effect[of env c r rc s] by (auto simp: frame_def)

lemma step_disconnect: "disconnect env c r rc s = Inr s' \<Longrightarrow> step_ok s s'"
proof -
  assume a: "disconnect env c r rc s = Inr s'"
  let ?h = "disconnect_head rc s"
  have h: "step_ok s ?h" by (rule frame_step_ok, rule frame_prims)
  show ?thesis
  proof (cases "state ?h = DISCONNECTED")
    case True
    with a have "s' = ?h" by (simp add: disconnect_def Let_def)
    with h show ?thesis by simp
  next
    case False
    with a obtain s2 where s2: "clear_outgoing_futures ?h = Inr s2" and
      t: "disconnect_tail env c r rc (disconnect_signal c r rc s2) = Inr s'"
      by (auto simp: disconnect_def Let_def split: sum.splits)
    from s2 have b: "step_ok ?h s2"
      unfolding clear_outgoing_futures_def by (rule step_future_error_all)
    have c: "step_ok s2 (disconnect_signal c r rc s2)" by (rule step_disconnect_signal)
    from t have d: "step_ok (disconnect_signal c r rc s2) s'"
      by (intro frame_step_ok frame_disconnect_tail)
    from h b c d show ?thesis by (blast intro: step_ok_trans)
  qed
qed

lemma step_send_commands: "send_commands env cmds s = Inr s' \<Longrightarrow> step_ok s s'"
proof -
  assume a: "send_commands env cmds s = Inr s'"
  then obtain t where t: "conn s = Some t"
    by (cases "conn s") (auto simp: send_commands_def)
  show ?thesis
  proof (cases "ws_open t")
    case True
    with a t have "s' = s\<lparr>conn := Some (t\<lparr>sent := sent t @ [cmds]\<rparr>)\<rparr>"
      by (simp add: send_commands_def)
    then show ?thesis by (intro frame_step_ok) (simp add: frame_def)
  next
    case False
    with a t show ?thesis by (auto simp: send_commands_def intro: step_disconnect)
  qed
qed

lemma step_connect_call: "step_ok s (connect_call env s)"
  by (auto simp: connect_call_def refresh_connected_future_def emit_def step_ok_def
      futs_step_def subs_ok_def conn_inv_def fut_done_def)

lemma step_connect_reply_success: "connect_reply_success c s = Inr s' \<Longrightarrow> step_ok s s'"
proof -
  assume a: "connect_reply_success c s = Inr s'"
  then obtain cid where cid: "c_client c = Some cid"
    by (cases "c_client c") (auto simp: connect_reply_success_def)
  let ?s1 = "s\<lparr>client_id := Some cid, state := CONNECTED,
                      send_pong := (case c_pong c of None \<Rightarrow> False | Some b \<Rightarrow> b),
                      ping_interval := (case c_ping c of None \<Rightarrow> 0 | Some x \<Rightarrow> x)\<rparr>"
  let ?s2 = "(if ping_interval ?s1 > 0 then restart_ping_wait ?s1 else ?s1)"
  let ?mid = "(if (case c_expires c of None \<Rightarrow> False | Some b \<Rightarrow> b)
                    then (case c_ttl c of
                            None \<Rightarrow> Inl (KeyError ''ttl'')
                          | Some ttl \<Rightarrow>
                              (case call_later ttl RefreshCb ?s2 of
                                 (h, s') \<Rightarrow> Inr (s'\<lparr>refresh_timer := Some h\<rparr>)))
                    else Inr ?s2)"
  from a cid obtain s3 where mid: "?mid = Inr s3" and nd: "\<not> fut_done (connected_future s3)"
    and s': "s' = (let s4 = s3\<lparr>connected_future := Result True\<rparr>;
                          s5 = emit (OnConnected c) s4;
                          s6 = clear_connecting_state s5
                      in subscribe_tasks (subs s6) s6)"
    by (cases ?mid) (auto simp: connect_reply_success_def Let_def split: if_splits)
  have s2: "state ?s2 = CONNECTED" "futs ?s2 = futs s" "subs ?s2 = subs s"
    "next_ref s \<le> next_ref ?s2" "connected_future_id ?s2 = connected_future_id s"
    by (auto simp: restart_ping_wait_def frame_defs split: option.splits)
  from mid s2 have s3: "state s3 = CONNECTED" "futs s3 = futs s" "subs s3 = subs s"
    "next_ref s \<le> next_ref s3" "connected_future_id s3 = connected_future_id s"
    by (auto simp: call_later_def split: if_splits option.splits)
  let ?s4 = "s3\<lparr>connected_future := Result True\<rparr>"
  have f: "frame ?s4 s'"
    unfolding s' Let_def
    by (rule frame_trans[OF frame_prims(1)], rule frame_trans[OF frame_prims(9)],
          rule frame_subscribe_tasks)
  then have "state s' = CONNECTED" "futs s' = futs s" "subs s' = subs s"
    "next_ref s \<le> next_ref s'" "connected_future_id s' = connected_future_id s"
    "connected_future s' = Result True"
    using s3 by (auto simp: frame_def)
  then show ?thesis
    by (auto simp: step_ok_def futs_step_def subs_ok_def conn_inv_def)
qed

lemma step_connect_reply_error: "connect_reply_error env err s = Inr s' \<Longrightarrow> step_ok s s'"
proof -
  assume a: "connect_reply_error env err s = Inr s'"
  let ?s1 = "(if is_token_expired env (e_code err) then s\<lparr>token := []\<rparr> else s)"
  have f1: "frame s ?s1" by (simp add: frame_def)
  from a have "s' = schedule_reconnect env
                     (emit (OnError (code_number env (EC CONNECT_REPLY_ERROR))
                                    (ReplyError (e_code err) (e_message err) True))
                        (close_transport_conn ?s1))
      \<or> disconnect env (e_code err) (e_message err) False ?s1 = Inr s'"
    by (auto simp: connect_reply_error_def Let_def split: if_splits)
  then have "step_ok ?s1 s'"
  proof
    assume "s' = schedule_reconnect env
                     (emit (OnError (code_number env (EC CONNECT_REPLY_ERROR))
                                    (ReplyError (e_code err) (e_message err) True))
                        (close_transport_conn ?s1))"
    then show ?thesis
      by (auto intro!: frame_step_ok frame_after frame_refl)
  next
    assume "disconnect env (e_code err) (e_message err) False ?s1 = Inr s'"
    then show ?thesis by (rule step_disconnect)
  qed
  with frame_step_ok[OF f1] show ?thesis by (rule step_ok_trans)
qed

lemma step_connect_reply: "connect_reply env rp s = Inr s' \<Longrightarrow> step_ok s s'"
  by (auto simp: connect_reply_def step_ok_refl
      intro: step_connect_reply_error step_connect_reply_success
      split: if_splits option.splits)

lemmas step_after = frame_prims[THEN frame_step_ok, THEN step_ok_trans[rotated]]

lemma step_drop: "drop_result x = Inr s' \<Longrightarrow> \<exists>y. x = Inr (y, s')"
  by (cases x) (auto simp: drop_result_def)

lemma step_token_upd: "step_ok s (s\<lparr>token := x\<rparr>)"
  by (intro frame_step_ok) (simp add: frame_def)

lemma step_create_connection_token:
  "create_connection_token env provided s = Inr (y, s') \<Longrightarrow> step_ok s s'"
  by (auto simp: create_connection_token_def step_ok_refl step_token_upd
      intro: step_disconnect intro!: step_after
      split: if_splits option.splits sum.splits)

lemma step_create_connection_send:
  assumes "create_connection_send env tok s = Inr (y, s')"
  shows "step_ok s s'"
proof (cases "state s \<noteq> CONNECTING")
  case True
  with assms show ?thesis by (simp add: create_connection_send_def step_ok_refl)
next
  case False
  let ?s0 = "spawn ProcessMessagesTask (spawn ListenTask s)"
  let ?s1 = "snd (next_command_id ?s0)"
  let ?c = "fst (next_command_id ?s0)"
  let ?s2 = "snd (register_future_with_done ?c (timeout ?s1) ?s1)"
  from assms False have snd: "send_commands env [ConnectCmd ?c tok] ?s2 = Inr s'"
    by (auto simp: create_connection_send_def split: prod.splits sum.splits)
  have "step_ok s ?s1" by (intro step_after step_ok_refl)
  moreover have "step_ok ?s1 ?s2" by (rule step_register_future_with_done)
  moreover have "step_ok ?s2 s'" using snd by (rule step_send_commands)
  ultimately show ?thesis by (blast intro: step_ok_trans)
qed

lemma step_create_connection_result:
  "create_connection_result env outcome s = Inr s' \<Longrightarrow> step_ok s s'"
  by (cases outcome)
     (auto simp: create_connection_result_def step_ok_refl
      intro: step_connect_reply intro!: step_after
      split: if_splits error.splits)

lemma step_with_done_exit: "with_done_exit d s = Inr s' \<Longrightarrow> step_ok s s'"
  unfolding with_done_exit_def by (intro frame_step_ok frame_set_done)

lemma step_create_connection_resume:
  "create_connection_resume env f d s = Inr s' \<Longrightarrow> step_ok s s'"
  by (auto simp: create_connection_resume_def step_ok_refl
      intro: step_ok_trans[OF step_create_connection_result step_with_done_exit]
      split: option.splits fut.splits sum.splits)

lemma step_user_disconnect: "user_disconnect env s = Inr s' \<Longrightarrow> step_ok s s'"
  by (auto simp: user_disconnect_def step_ok_refl intro: step_disconnect split: if_splits)

lemma step_listen_exit: "listen_exit env s = Inr s' \<Longrightarrow> step_ok s s'"
  by (auto simp: listen_exit_def intro: step_disconnect split: option.splits prod.splits)

lemma step_fire_timer: "fire_timer h s = Inr s' \<Longrightarrow> step_ok s s'"
proof -
  assume a: "fire_timer h s = Inr s'"
  show ?thesis
  proof (cases "timers s h")
    case None
    with a show ?thesis by (simp add: fire_timer_def step_ok_refl)
  next
    case (Some t)
    show ?thesis
    proof (cases "t_status t = Armed")
      case False
      with a Some show ?thesis by (simp add: fire_timer_def step_ok_refl)
    next
      case True
      let ?s1 = "s\<lparr>timers := (timers s)(h \<mapsto> t\<lparr>t_status := Fired\<rparr>)\<rparr>"
      have f: "step_ok s ?s1" by (intro frame_step_ok) (simp add: frame_def)
      from a Some True have "step_ok ?s1 s'"
        by (cases "t_callback t")
           (auto simp: fire_timer_def Let_def step_ok_refl
             intro: step_timeout_cb intro!: step_after)
      with f show ?thesis by (rule step_ok_trans)
    qed
  qed
qed

lemma step_issue_command:
  assumes "issue_command env tmo mk s = Inr (f, s')"
  shows "step_ok s s'"
proof -
  let ?s1 = "snd (next_command_id s)"
  let ?c = "fst (next_command_id s)"
  let ?s2 = "snd (register_future ?c tmo ?s1)"
  from assms have snd: "send_commands env [mk ?c] ?s2 = Inr s'"
    by (auto simp: issue_command_def split: prod.splits sum.splits)
  have "step_ok s ?s1" by (intro step_after step_ok_refl)
  moreover have "step_ok ?s1 ?s2" by (rule step_register_future)
  moreover have "step_ok ?s2 s'" using snd by (rule step_send_commands)
  ultimately show ?thesis by (blast intro: step_ok_trans)
qed

lemma step_handle_ping: "handle_ping env s = Inr s' \<Longrightarrow> step_ok s s'"
  by (auto simp: handle_ping_def step_ok_refl
      intro!: step_after intro: step_send_commands
      split: if_splits sum.splits)

lemma step_process_push: "process_push env p s = Inr s' \<Longrightarrow> step_ok s s'"
  by (auto simp: process_push_def step_ok_refl
      intro!: step_after intro: step_disconnect frame_step_ok[OF frame_process_unsubscribe]
      simp: process_disconnect_def Let_def
      split: option.splits)

lemma step_process_reply: "process_reply env rp s = Inr (d, s') \<Longrightarrow> step_ok s s'"
  by (auto simp: process_reply_def
      intro: step_future_success step_process_push step_handle_ping
      split: if_splits sum.splits)

lemma subs_ok_update: "subs s' = AList.update ch r (subs s) \<Longrightarrow> subs_ok s s'"
  unfolding subs_ok_def by (simp add: AList.dom_update AList.distinct_update) blast

lemma step_new_subscription:
  assumes "new_subscription ch tok mn mx s = Inr (r, s')"
  shows "step_ok s s'"
proof -
  from assms have s': "s' = s\<lparr>sub_objs := sub_objs s', next_ref := Suc (Suc (next_ref s)),
                        subs := AList.update ch r (subs s)\<rparr>"
    by (auto simp: new_subscription_def get_subscription_def Let_def split: option.splits)
  have "subs s' = AList.update ch r (subs s)" by (subst s') simp
  then have "subs_ok s s'" by (rule subs_ok_update)
  moreover have "next_ref s' = Suc (Suc (next_ref s))" "futs s' = futs s" "state s' = state s"
    "connected_future s' = connected_future s"
    "connected_future_id s' = connected_future_id s"
    by (subst s', simp)+
  ultimately show ?thesis
    by (auto simp: step_ok_def futs_step_def conn_inv_def)
qed

lemma step_resubscribe: "step_ok s (resubscribe r s)"
proof (cases "sub_objs s r")
  case None
  then show ?thesis by (simp add: resubscribe_def step_ok_refl)
next
  case (Some sb)
  let ?s1 = "s\<lparr>subs := AList.update (channel sb) r (subs s)\<rparr>"
  have "subs_ok s ?s1" by (rule subs_ok_update) simp
  then have "step_ok s ?s1"
    by (auto simp: step_ok_def futs_step_def conn_inv_def)
  then show ?thesis
    unfolding resubscribe_def Some by (auto intro!: step_after)
qed

lemma step_subscribe: "subscribe env r s = Inr s' \<Longrightarrow> step_ok s s'"
proof -
  assume a: "subscribe env r s = Inr s'"
  have "s' = s \<or> (\<exists>x. s' = resubscribe r x \<and> step_ok s x)"
    using a
    by (auto simp: subscribe_def Let_def intro!: step_after step_ok_refl
        split: option.splits if_splits)
  then show ?thesis
    by (auto intro: step_ok_refl step_ok_trans step_resubscribe)
qed

lemma step_client_unsubscribe_send:
  assumes "client_unsubscribe_send env ch s = Inr (w, s')"
  shows "step_ok s s'"
proof -
  let ?s1 = "snd (next_command_id s)"
  let ?c = "fst (next_command_id s)"
  let ?s2 = "snd (register_future ?c (timeout ?s1) ?s1)"
  have 12: "step_ok s ?s2"
    by (rule step_ok_trans[OF _ step_register_future]) (intro step_after step_ok_refl)
  from assms have "s' = s \<or> (\<exists>cmds. send_commands env cmds ?s2 = Inr s')"
    by (auto simp: client_unsubscribe_send_def split: option.splits prod.splits sum.splits)
  then show ?thesis
    by (auto intro: step_ok_refl step_ok_trans[OF 12] step_send_commands)
qed

lemma step_client_unsubscribe_resume:
  "client_unsubscribe_resume env f s = Inr s' \<Longrightarrow> step_ok s s'"
  by (auto simp: client_unsubscribe_resume_def client_unsubscribe_result_def step_ok_refl
      intro: step_disconnect
      split: option.splits fut.splits error.splits)

lemma step_move_unsubscribed:
  assumes "move_unsubscribed env r code reason snd_cmd s = Inr (w, s')"
  shows "step_ok s s'"
proof (cases "sub_objs s r")
  case None
  with assms show ?thesis by (simp add: move_unsubscribed_def step_ok_refl)
next
  case (Some sb)
  show ?thesis
  proof (cases "sub_state sb = UNSUBSCRIBED")
    case True
    with assms Some show ?thesis by (simp add: move_unsubscribed_def step_ok_refl)
  next
    case False
    let ?s1 = "(if sub_state sb = SUBSCRIBED then clear_subscribed_state r s
                        else if sub_state sb = SUBSCRIBING then clear_subscribing_state r s
                        else s)"
    let ?s5 = "emit (OnUnsubscribed r code reason)
                 (upd_sub r (\<lambda>x. x\<lparr>subscribed_future :=
                         Exception (SubscriptionUnsubscribedError
                                      ''subscription unsubscribed'')\<rparr>)
                    (refresh_subscribed_future r
                       (upd_sub r (\<lambda>x. x\<lparr>sub_state := UNSUBSCRIBED\<rparr>) ?s1)))"
    have 1: "step_ok s ?s1" by (auto intro!: step_after step_ok_refl)
    have 5: "step_ok s ?s5" by (intro step_after 1)
    from assms Some False have
      "s' = ?s5 \<or> client_unsubscribe_send env (channel sb) ?s5 = Inr (w, s')"
      by (auto simp: move_unsubscribed_def Let_def split: if_splits)
    then show ?thesis
      using 5 by (auto intro: step_ok_trans[OF 5] step_client_unsubscribe_send)
  qed
qed

lemma step_unsubscribe: "unsubscribe env r s = Inr (w, s') \<Longrightarrow> step_ok s s'"
  unfolding unsubscribe_def by (rule step_move_unsubscribed)

lemma step_subscribe_reply_error:
  assumes "subscribe_reply_error env r err s = Inr s'"
  shows "step_ok s s'"
proof -
  let ?s1 = "(if is_token_expired env (e_code err)
              then upd_sub r (\<lambda>x. x\<lparr>sub_token := []\<rparr>) s else s)"
  have 1: "step_ok s ?s1" by (auto intro!: step_after step_ok_refl)
  from assms have "(\<exists>e. s' = schedule_resubscribe env r (emit e ?s1))
      \<or> (\<exists>w. move_unsubscribed env r (e_code err) (e_message err) False ?s1 = Inr (w, s'))"
    by (auto simp: subscribe_reply_error_def Let_def split: if_splits sum.splits)
  then show ?thesis
  proof
    assume "\<exists>e. s' = schedule_resubscribe env r (emit e ?s1)"
    then obtain e where X: "s' = schedule_resubscribe env r (emit e ?s1)" by blast
    have "step_ok ?s1 s'" unfolding X by (intro step_after step_ok_refl)
    with 1 show ?thesis by (rule step_ok_trans)
  next
    assume "\<exists>w. move_unsubscribed env r (e_code err) (e_message err) False ?s1 = Inr (w, s')"
    then show ?thesis by (blast intro: step_ok_trans[OF 1] step_move_unsubscribed)
  qed
qed

lemma step_client_subscribe_result:
  "client_subscribe_result env r outcome s = Inr s' \<Longrightarrow> step_ok s s'"
  by (cases outcome)
     (auto simp: client_subscribe_result_def step_ok_refl
      intro: step_subscribe_reply_error frame_step_ok[OF frame_move_subscribed]
      intro!: step_after
      split: if_splits option.splits error.splits)

lemma step_client_subscribe_resume:
  "client_subscribe_resume env r f d s = Inr s' \<Longrightarrow> step_ok s s'"
  by (auto simp: client_subscribe_resume_def step_ok_refl
      intro: step_ok_trans[OF step_client_subscribe_result step_with_done_exit]
      split: option.splits fut.splits sum.splits)

lemma step_client_subscribe_send:
  assumes "client_subscribe_send env ch provided s = Inr (w, s')"
  shows "step_ok s s'"
proof -
  from assms obtain r sb where r: "map_of (subs s) ch = Some r \<and> sub_objs s r = Some sb
       \<and> state s = CONNECTED \<or> s' = s"
    by (auto simp: client_subscribe_send_def split: option.splits if_splits)
  show ?thesis
  proof (cases "s' = s")
    case True
    then show ?thesis by (simp add: step_ok_refl)
  next
    case False
    with r have r': "map_of (subs s) ch = Some r" "sub_objs s r = Some sb" "state s = CONNECTED"
      by auto
    let ?tok = "(if sub_token sb \<noteq> [] then Inr (Some (Some (sub_token sb)), s)
                 else (case provided of
                         None \<Rightarrow> Inr (Some None, s)
                       | Some (Inr tok) \<Rightarrow>
                           Inr (Some (Some tok), upd_sub r (\<lambda>x. x\<lparr>sub_token := tok\<rparr>) s)
                       | Some (Inl e) \<Rightarrow>
                           (if e = UnauthorizedError
                            then (case move_unsubscribed env r
                                         (code_number env (UC UNSUBSCRIBED_UNAUTHORIZED))
                                         (code_message env (UC UNSUBSCRIBED_UNAUTHORIZED))
                                         False s of
                                    Inl e' \<Rightarrow> Inl e'
                                  | Inr (_, s') \<Rightarrow> Inr (None, s'))
                            else Inr (None,
                                   spawn (SubResubscribeTask r)
                                     (emit (OnSubscriptionError r
                                              (code_number env
                                                 (EC SUBSCRIPTION_SUBSCRIBE_TOKEN)) e)
                                        s)))))"
    from assms r' obtain tk s1 where tk: "?tok = Inr (tk, s1)"
      by (cases ?tok) (auto simp: client_subscribe_send_def)
    from tk have 1: "step_ok s s1"
      by (auto simp: step_ok_refl intro!: step_after intro: step_move_unsubscribed
          split: if_splits option.splits sum.splits)
    show ?thesis
    proof (cases tk)
      case None
      with assms r' tk have "s' = s1" by (simp add: client_subscribe_send_def)
      with 1 show ?thesis by simp
    next
      case (Some tok)
      let ?s2 = "snd (next_command_id s1)"
      let ?c = "fst (next_command_id s1)"
      let ?s3 = "snd (register_future_with_done ?c (timeout ?s2) ?s2)"
      from assms r' tk Some have snd: "send_commands env [SubscribeCmd ?c ch tok] ?s3 = Inr s'"
        by (auto simp: client_subscribe_send_def split: prod.splits sum.splits)
      have "step_ok s1 ?s2" by (intro step_after step_ok_refl)
      moreover have "step_ok ?s2 ?s3" by (rule step_register_future_with_done)
      moreover have "step_ok ?s3 s'" using snd by (rule step_send_commands)
      ultimately show ?thesis using 1 by (blast intro: step_ok_trans)
    qed
  qed
qed

lemma remove_subscription_effect:
  assumes "remove_subscription ro s = Inr s'"
  shows "s' = s \<or> (\<exists>r sb. ro = Some r \<and> sub_objs s r = Some sb
           \<and> sub_state sb = UNSUBSCRIBED
           \<and> map_of (subs s) (channel sb) \<noteq> None
           \<and> subs s' = AList.delete (channel sb) (subs s)
           \<and> futs s' = futs s \<and> next_ref s' = next_ref s \<and> state s' = state s
           \<and> connected_future s' = connected_future s
           \<and> connected_future_id s' = connected_future_id s)"
  using assms
  by (auto simp: remove_subscription_def upd_sub_def Let_def
      split: option.splits if_splits)

lemma reachable_run: "reachable env s \<Longrightarrow> run env as s = Inr s' \<Longrightarrow> reachable env s'"
proof (induction as arbitrary: s)
  case Nil
  then show ?case by simp
next
  case (Cons a as)
  from Cons.prems(2) obtain s1 where s1: "exec env a s = Inr s1" "run env as s1 = Inr s'"
    by (auto split: sum.splits)
  from Cons.prems(1) s1(1) have "reachable env s1" by (rule reachable_step)
  from Cons.IH[OF this s1(2)] show ?case .
qed

lemma step_ok_core: "step_ok s s' \<Longrightarrow> core_ok s s'"
  by (simp add: step_ok_def core_ok_def)

lemma exec_step:
  assumes "exec env a s = Inr s'"
  shows "step_ok s s' \<or> (\<exists>r sb. a = A_remove_subscription (Some r) \<and> sub_objs s r = Some sb
           \<and> sub_state sb = UNSUBSCRIBED
           \<and> map_of (subs s) (channel sb) \<noteq> None
           \<and> subs s' = AList.delete (channel sb) (subs s)
           \<and> futs s' = futs s \<and> next_ref s' = next_ref s \<and> state s' = state s
           \<and> connected_future s' = connected_future s
           \<and> connected_future_id s' = connected_future_id s)"
proof (cases a)
  case (A_remove_subscription ro)
  with assms have "remove_subscription ro s = Inr s'" by simp
  from remove_subscription_effect[OF this] show ?thesis
    unfolding A_remove_subscription by (auto simp: step_ok_refl)
next
  case (A_resubscribe r)
  with assms have "s' = s \<or> s' = resubscribe r s"
    by (auto split: option.splits if_splits)
  then show ?thesis by (auto simp: step_ok_refl step_resubscribe)
qed (use assms in \<open>auto dest!: step_drop
      intro: step_connect_call frame_step_ok[OF frame_prims(16)] step_create_connection_token
        step_create_connection_send step_create_connection_resume step_disconnect
        step_user_disconnect step_listen_exit frame_step_ok[OF frame_prims(15)]
        frame_step_ok[OF frame_prims(12)] step_fire_timer step_issue_command
        step_process_reply step_with_done_exit step_new_subscription step_subscribe
        step_unsubscribe step_client_unsubscribe_resume step_client_subscribe_send
        step_client_subscribe_resume step_move_unsubscribed
        frame_step_ok[OF frame_move_subscribing] frame_step_ok[OF frame_prims(17)]\<close>)

lemma exec_core: "exec env a s = Inr s' \<Longrightarrow> core_ok s s'"
  using exec_step[of env a s s']
  by (auto simp: step_ok_core) (auto simp: core_ok_def futs_step_def conn_inv_def)



lemma reachable_distinct_subs: "reachable env s \<Longrightarrow> distinct (map fst (subs s))"
proof (induction rule: reachable.induct)
  case (reachable_init tok tmo max_ping_delay min_delay max_delay)
  show ?case by (simp add: init_def)
next
  case (reachable_step s a s')
  from exec_step[OF reachable_step.hyps(2)] reachable_step.IH show ?case
    by (auto simp: step_ok_def subs_ok_def AList.distinct_delete)
qed




lemma reachable_example_client: "reachable example_env example_client"
  unfolding example_client_def by (rule reachable_init)


subsection \<open>The connected signal\<close>




lemma example_registered_run:
  "run example_env [A_new_subscription ''news'' [] (1/10) 10] example_client
     = Inr example_registered"
  by (simp add: example_registered_def example_client_def init_def new_subscription_def
      get_subscription_def drop_result_def Let_def)

lemma example_registered_simps:
  "subs example_registered = [(''news'', 2)]"
  "map_option sub_state (sub_objs example_registered 2) = Some UNSUBSCRIBED"
  "map_option channel (sub_objs example_registered 2) = Some ''news''"
  by (simp_all add: example_registered_def example_client_def init_def new_subscription_def
      get_subscription_def drop_result_def Let_def)

lemma example_removed_run:
  "exec example_env (A_remove_subscription (Some 2)) example_registered = Inr example_removed"
  "subs example_removed = []"
  by (simp_all add: example_removed_def example_registered_def example_client_def init_def
      new_subscription_def get_subscription_def drop_result_def Let_def
      remove_subscription_def upd_sub_def)

lemma reachable_example_registered: "reachable example_env example_registered"
  by (rule reachable_run[OF reachable_example_client example_registered_run])

subsection \<open>One subscription per channel\<close>

text \<open>
  Claim C9. \<open>new_subscription\<close> on a channel that is registered raises
  \<open>DuplicateSubscriptionError\<close>; on a channel that is not, it registers a new
  subscription object under it. In every state the client reaches the channels of the
  registry are pairwise distinct, so a channel has at most one subscription. A segment
  after which a registered channel is no longer registered is \<open>remove_subscription\<close>
  of a subscription of that channel, in state \<open>UNSUBSCRIBED\<close>.
\<close>

theorem subscription_registry_unique:
  "(map_of (subs s) ch \<noteq> None \<longrightarrow>
      new_subscription ch tok mn mx s
        = Inl (DuplicateSubscriptionError
                 (''subscription to channel '' @ [CHR 0x22] @ ch @ [CHR 0x22]
                    @ '' is already registered'')))
   \<and> (map_of (subs s) ch = None \<longrightarrow>
        (\<exists>s'. new_subscription ch tok mn mx s = Inr (next_ref s, s')
           \<and> map_of (subs s') = (map_of (subs s))(ch \<mapsto> next_ref s)
           \<and> sub_objs s' (next_ref s) \<noteq> None))
   \<and> (reachable env s \<longrightarrow> distinct (map fst (subs s)))
   \<and> (exec env a s = Inr s1 \<and> ch \<in> fst ` set (subs s) \<and> ch \<notin> fst ` set (subs s1) \<longrightarrow>
        (\<exists>r sb. a = A_remove_subscription (Some r) \<and> sub_objs s r = Some sb
           \<and> channel sb = ch \<and> sub_state sb = UNSUBSCRIBED))"
proof (intro conjI impI)
  assume "map_of (subs s) ch \<noteq> None"
  then show "new_subscription ch tok mn mx s
        = Inl (DuplicateSubscriptionError
                 (''subscription to channel '' @ [CHR 0x22] @ ch @ [CHR 0x22]
                    @ '' is already registered''))"
    by (auto simp: new_subscription_def get_subscription_def)
next
  assume "map_of (subs s) ch = None"
  then show "\<exists>s'. new_subscription ch tok mn mx s = Inr (next_ref s, s')
           \<and> map_of (subs s') = (map_of (subs s))(ch \<mapsto> next_ref s)
           \<and> sub_objs s' (next_ref s) \<noteq> None"
    by (simp add: new_subscription_def get_subscription_def Let_def AList.update_conv')
next
  assume "reachable env s"
  then show "distinct (map fst (subs s))" by (rule reachable_distinct_subs)
next
  assume a: "exec env a s = Inr s1 \<and> ch \<in> fst ` set (subs s) \<and> ch \<notin> fst ` set (subs s1)"
  from exec_step[of env a s s1] a have
    "step_ok s s1 \<or> (\<exists>r sb. a = A_remove_subscription (Some r) \<and> sub_objs s r = Some sb
           \<and> sub_state sb = UNSUBSCRIBED
           \<and> subs s1 = AList.delete (channel sb) (subs s))"
    by blast
  then show "\<exists>r sb. a = A_remove_subscription (Some r) \<and> sub_objs s r = Some sb
           \<and> channel sb = ch \<and> sub_state sb = UNSUBSCRIBED"
  proof
    assume "step_ok s s1"
    then have "fst ` set (subs s) \<subseteq> fst ` set (subs s1)"
      by (simp add: step_ok_def subs_ok_def)
    with a show ?thesis by blast
  next
    assume "\<exists>r sb. a = A_remove_subscription (Some r) \<and> sub_objs s r = Some sb
           \<and> sub_state sb = UNSUBSCRIBED
           \<and> subs s1 = AList.delete (channel sb) (subs s)"
    then obtain r sb where r: "a = A_remove_subscription (Some r)" "sub_objs s r = Some sb"
      "sub_state sb = UNSUBSCRIBED" "subs s1 = AList.delete (channel sb) (subs s)"
      by blast
    have "fst ` set (AList.delete (channel sb) (subs s)) = fst ` set (subs s) - {channel sb}"
      using AList.delete_keys[of "channel sb" "subs s"]
      by (metis set_map set_removeAll)
    with a r(4) have "channel sb = ch" by auto
    with r show ?thesis by blast
  qed
qed

theorem subscription_registry_unique_witness:
  "map_of (subs example_registered) ''news'' \<noteq> None
   \<and> new_subscription ''news'' [] (1/10) 10 example_registered
        = Inl (DuplicateSubscriptionError
                 (''subscription to channel '' @ [CHR 0x22] @ ''news'' @ [CHR 0x22]
                    @ '' is already registered''))
   \<and> reachable example_env example_registered
   \<and> distinct (map fst (subs example_registered))
   \<and> exec example_env (A_remove_subscription (Some 2)) example_registered = Inr example_removed
   \<and> ''news'' \<in> fst ` set (subs example_registered)
   \<and> ''news'' \<notin> fst ` set (subs example_removed)
   \<and> (\<exists>sb. sub_objs example_registered 2 = Some sb \<and> channel sb = ''news''
             \<and> sub_state sb = UNSUBSCRIBED)"
proof -
  have h1: "map_of (subs example_registered) ''news'' \<noteq> None"
    by (simp add: example_registered_simps)
  have h4: "exec example_env (A_remove_subscription (Some 2)) example_registered
              = Inr example_removed
            \<and> ''news'' \<in> fst ` set (subs example_registered)
            \<and> ''news'' \<notin> fst ` set (subs example_removed)"
    using example_removed_run by (simp add: example_registered_simps)
  note t = subscription_registry_unique[of example_registered "''news''" "[]" "1/10" 10
      example_env "A_remove_subscription (Some 2)" example_removed]
  from t h1 have c1: "new_subscription ''news'' [] (1/10) 10 example_registered
        = Inl (DuplicateSubscriptionError
                 (''subscription to channel '' @ [CHR 0x22] @ ''news'' @ [CHR 0x22]
                    @ '' is already registered''))"
    by simp
  from t reachable_example_registered have c3: "distinct (map fst (subs example_registered))"
    by blast
  from t h4 have c4: "\<exists>sb. sub_objs example_registered 2 = Some sb \<and> channel sb = ''news''
             \<and> sub_state sb = UNSUBSCRIBED"
    by auto
  from h1 c1 reachable_example_registered c3 h4 c4 show ?thesis by blast
qed

subsection \<open>The registry of pending commands\<close>

lemmas eval_defs2 = example_client_def example_env_def example_transport_def init_def
  connect_call_def create_connection_open_def
  refresh_connected_future_def fut_done_def emit_def spawn_def user_disconnect_def
  disconnect_def disconnect_head_def clear_connecting_state_def poison_messages_def
  clear_outgoing_futures_def disconnect_signal_def disconnect_tail_def
  close_transport_conn_def cancel_timer_def Let_def
  new_subscription_def get_subscription_def drop_result_def subscribe_def upd_sub_def
  resubscribe_def unsubscribe_def move_unsubscribed_def clear_subscribing_state_def
  clear_subscribed_state_def refresh_subscribed_future_def client_unsubscribe_send_def
  next_command_id_def register_future_def arm_timeout_def call_later_def send_commands_def
  ws_open_def

lemma example_pending_run:
  "run example_env
             [A_connect, A_open (Inr example_transport),
              A_new_subscription ''news'' [] (1/10) 10, A_subscribe 2,
              A_user_disconnect, A_unsubscribe 2] example_client = Inr example_pending"
  by (simp add: example_pending_def eval_defs2)

lemma example_pending_simps:
  "state example_pending = DISCONNECTED"
  "map fst (futures example_pending) = [1]"
  "map (\<lambda>x. cb_future (snd x)) (futures example_pending) = [5]"
  "futs example_pending 5 = Some Pending"
  by (simp_all add: example_pending_def eval_defs2)

lemma example_pending_after_simps:
  "disconnect example_env 0 [] False example_pending = Inr example_pending_after"
  "map fst (futures example_pending_after) = [1]"
  "futs example_pending_after 5 = Some Pending"
  by (simp_all add: example_pending_after_def example_pending_simps disconnect_idle
      disconnect_head_frame)

lemma reachable_example_pending: "reachable example_env example_pending"
  by (rule reachable_run[OF reachable_example_client example_pending_run])

text \<open>
  Claim C6, as stated, fails: a command can be pending in the registry of a client
  that is \<open>DISCONNECTED\<close> (here the unsubscribe command of a subscription that is
  unsubscribed after the user's disconnect), and \<open>_disconnect\<close> returns before
  \<open>_clear_outgoing_futures\<close> when the client is already \<open>DISCONNECTED\<close>: the
  internal disconnect leaves the record in the registry and its future unresolved.
\<close>

theorem registry_cleared_counterexample:
  "reachable example_env example_pending
   \<and> state example_pending = DISCONNECTED
   \<and> map fst (futures example_pending) = [1]
   \<and> futs example_pending 5 = Some Pending
   \<and> disconnect example_env 0 [] False example_pending = Inr example_pending_after
   \<and> map fst (futures example_pending_after) = [1]
   \<and> futs example_pending_after 5 = Some Pending"
  by (simp add: reachable_example_pending example_pending_simps example_pending_after_simps)

text \<open>
  Claim C6, amended. An internal disconnect of a client that is not \<open>DISCONNECTED\<close>,
  with a registry whose records are pending, fails the future of every record with
  the client-disconnected error and empties the registry; on a client that is
  already \<open>DISCONNECTED\<close> it changes neither the registry nor any reply future. And
  in every segment of the client, a reply future that exists is left as it is or
  goes from unresolved to exactly one of: a reply, the timeout error, the
  client-disconnected error. So a future is resolved at most once, and only in one
  of these three ways.
\<close>

theorem registry_resolution:
  "(registry_pending s \<and> state s \<noteq> DISCONNECTED \<longrightarrow>
      (\<exists>s'. disconnect env c r rc s = Inr s' \<and> futures s' = []
         \<and> (\<forall>x\<in>set (futures s). futs s' (cb_future (snd x))
                = Some (Exception (ClientDisconnectedError (CommandCanceled (fst x)))))))
   \<and> (state s = DISCONNECTED \<longrightarrow>
        (\<exists>s'. disconnect env c r rc s = Inr s' \<and> futures s' = futures s
           \<and> futs s' = futs s))
   \<and> (exec env a s = Inr s1 \<and> f < next_ref s \<longrightarrow>
        futs s1 f = futs s f
        \<or> (futs s f = Some Pending
            \<and> ((\<exists>rp. futs s1 f = Some (Result rp))
                \<or> futs s1 f = Some (Exception (OperationTimeoutError []))
                \<or> (\<exists>k. futs s1 f
                          = Some (Exception (ClientDisconnectedError (CommandCanceled k)))))))"
proof (intro conjI impI)
  assume "registry_pending s \<and> state s \<noteq> DISCONNECTED"
  then have rp: "registry_pending s" and nd: "state s \<noteq> DISCONNECTED" by simp_all
  from disconnect_effect[OF rp nd, of env c r rc]
  show "\<exists>s'. disconnect env c r rc s = Inr s' \<and> futures s' = []
         \<and> (\<forall>x\<in>set (futures s). futs s' (cb_future (snd x))
                = Some (Exception (ClientDisconnectedError (CommandCanceled (fst x)))))"
    by blast
next
  assume "state s = DISCONNECTED"
  then show "\<exists>s'. disconnect env c r rc s = Inr s' \<and> futures s' = futures s
           \<and> futs s' = futs s"
    by (simp add: disconnect_idle disconnect_head_frame)
next
  assume a: "exec env a s = Inr s1 \<and> f < next_ref s"
  then have "core_ok s s1" using exec_core[of env a s s1] by simp
  with a have "futs s1 f = futs s f
        \<or> (futs s f = Some Pending \<and> (\<exists>v. futs s1 f = Some v \<and> resolution_ok v))"
    by (simp add: core_ok_def futs_step_def)
  then show "futs s1 f = futs s f
        \<or> (futs s f = Some Pending
            \<and> ((\<exists>rp. futs s1 f = Some (Result rp))
                \<or> futs s1 f = Some (Exception (OperationTimeoutError []))
                \<or> (\<exists>k. futs s1 f
                          = Some (Exception (ClientDisconnectedError (CommandCanceled k))))))"
    by (auto simp: resolution_ok_def)
qed

lemmas eval_defs3 = eval_defs2 issue_command_def registry_pending_def fire_timer_def
  timeout_cb_def future_error_def set_exception_def

lemma example_issued_simps:
  "state example_issued = CONNECTING"
  "registry_pending example_issued"
  "futures example_issued = [(1, \<lparr>cb_future = 2, cb_done = None, cb_timeout = Some 3\<rparr>)]"
  "futs example_issued 2 = Some Pending"
  "next_ref example_issued = 4"
  "tasks example_issued = []"
  "events example_issued = [OnConnecting 0 []]"
  "conn example_issued
     = Some (example_transport\<lparr>sent := [[UnsubscribeCmd 1 ''news'']]\<rparr>)"
  by (simp_all add: example_issued_def eval_defs3)

lemma example_timed_out_simps:
  "exec example_env (A_fire_timer 3) example_issued = Inr example_timed_out"
  "futs example_timed_out 2 = Some (Exception (OperationTimeoutError []))"
  by (simp_all add: example_timed_out_def example_issued_def eval_defs3)

theorem registry_resolution_witness:
  "registry_pending example_issued
   \<and> state example_issued \<noteq> DISCONNECTED
   \<and> (\<exists>s'. disconnect example_env 0 [] True example_issued = Inr s' \<and> futures s' = []
          \<and> futs s' 2 = Some (Exception (ClientDisconnectedError (CommandCanceled 1))))
   \<and> state example_pending = DISCONNECTED
   \<and> (\<exists>s'. disconnect example_env 0 [] True example_pending = Inr s'
          \<and> futures s' = futures example_pending \<and> futs s' = futs example_pending)
   \<and> exec example_env (A_fire_timer 3) example_issued = Inr example_timed_out
   \<and> 2 < next_ref example_issued
   \<and> futs example_issued 2 = Some Pending
   \<and> futs example_timed_out 2 = Some (Exception (OperationTimeoutError []))"
proof -
  note t1 = registry_resolution[of example_issued example_env 0 "[]" True
      "A_fire_timer 3" example_timed_out 2]
  note t2 = registry_resolution[of example_pending example_env 0 "[]" True
      "A_fire_timer 3" example_timed_out 2]
  have h: "registry_pending example_issued" "state example_issued \<noteq> DISCONNECTED"
    "state example_pending = DISCONNECTED"
    "exec example_env (A_fire_timer 3) example_issued = Inr example_timed_out"
    "2 < next_ref example_issued" "futs example_issued 2 = Some Pending"
    "futs example_timed_out 2 = Some (Exception (OperationTimeoutError []))"
    by (simp_all add: example_issued_simps example_pending_simps example_timed_out_simps
        del: exec.simps)
  from t1 h(1,2) have c1: "\<exists>s'. disconnect example_env 0 [] True example_issued = Inr s'
      \<and> futures s' = []
      \<and> futs s' 2 = Some (Exception (ClientDisconnectedError (CommandCanceled 1)))"
    by (simp add: example_issued_simps)
  from t2 h(3) have c2: "\<exists>s'. disconnect example_env 0 [] True example_pending = Inr s'
          \<and> futures s' = futures example_pending \<and> futs s' = futs example_pending"
    by blast
  from h c1 c2 show ?thesis by blast
qed

end
